theory Spec2Isabelle
  imports Complex_Main "HOL-Library.Log_Nat" "HOL-Library.Sublist"
begin

section \<open>Python numbers\<close>

text \<open>
  The simulator computes with Python \<^verbatim>\<open>float\<close>s (IEEE 754 binary64, every operation
  rounded to nearest, ties to even) and with Python's unbounded \<^verbatim>\<open>int\<close>s. A finite float
  is modelled by the rational number it denotes; \<open>rd\<close> rounds a rational to the nearest
  number with a 53-bit significand. The exponent range is not bounded: overflow to
  infinity, subnormal numbers and NaN are outside the model, which agrees with Python as
  long as the magnitude of every result is zero or lies between 2 to the power -1022 and
  2 to the power 1024.
\<close>

definition rne :: "rat \<Rightarrow> int" where
  \<comment> \<open>round to the nearest integer, ties to the even one\<close>
  "rne x = (let f = \<lfloor>x\<rfloor>; r = x - of_int f in
     if r < 1/2 then f else if 1/2 < r then f + 1 else if even f then f else f + 1)"

definition ilog2 :: "rat \<Rightarrow> int" where
  \<comment> \<open>for \<open>x > 0\<close>, the exponent \<open>e\<close> with \<open>2 powi e \<le> x < 2 powi (e + 1)\<close>\<close>
  "ilog2 x = (let (p, q) = quotient_of x; d = bitlen p - bitlen q in
     if 2 powi d \<le> x then d else d - 1)"

definition rd :: "rat \<Rightarrow> rat" where
  "rd x = (if x = 0 then 0 else
     let q = 2 powi (ilog2 \<bar>x\<bar> - 52) in of_int (rne (x / q)) * q)"

definition is_double :: "rat \<Rightarrow> bool" where
  "is_double x \<longleftrightarrow> rd x = x"

datatype py_error = ZeroDivisionError

definition int_truediv :: "int \<Rightarrow> int \<Rightarrow> py_error + rat" where
  \<comment> \<open>\<^verbatim>\<open>a / b\<close> on two ints: the correctly rounded quotient\<close>
  "int_truediv a b = (if b = 0 then Inl ZeroDivisionError else Inr (rd (of_int a / of_int b)))"

definition float_truediv :: "rat \<Rightarrow> int \<Rightarrow> py_error + rat" where
  \<comment> \<open>\<^verbatim>\<open>x / n\<close> on a float and an int: the int is converted to a float first\<close>
  "float_truediv x n = (if n = 0 then Inl ZeroDivisionError else Inr (rd (x / rd (of_int n))))"

definition py_int :: "rat \<Rightarrow> int" where
  \<comment> \<open>\<^verbatim>\<open>int(x)\<close> truncates towards zero\<close>
  "py_int x = (if 0 \<le> x then \<lfloor>x\<rfloor> else \<lceil>x\<rceil>)"

definition format_f :: "nat \<Rightarrow> rat \<Rightarrow> rat" where
  \<comment> \<open>the number printed by \<^verbatim>\<open>{x:.df}\<close>: \<open>x\<close> correctly rounded to \<open>d\<close> decimals\<close>
  "format_f d x = of_int (rne (x * 10 ^ d)) / 10 ^ d"

section \<open>Configuration\<close>

record config =
  ip :: string
  color :: string
  starttemp :: rat
  finaltemp :: rat
  time :: int
  og :: rat
  fg :: rat

definition DEFAULTS :: config where
  "DEFAULTS = \<lparr>ip = ''192.168.254.62'', color = ''yellow*hd'',
     starttemp = rd (1013 / 10), finaltemp = rd (553 / 10), time = 60,
     og = rd (10615 / 10000), fg = rd (1015 / 1000)\<rparr>"

definition script_version :: int where
  "script_version = 39"

text \<open>
  A YAML mapping and the argparse namespace both give each key a value or nothing.
  Values are taken at the types argparse gives them (\<^verbatim>\<open>float\<close>, \<^verbatim>\<open>int\<close>, \<^verbatim>\<open>str\<close>).
\<close>

record overrides =
  o_ip :: "string option"
  o_color :: "string option"
  o_starttemp :: "rat option"
  o_finaltemp :: "rat option"
  o_og :: "rat option"
  o_fg :: "rat option"
  o_time :: "int option"

record args = overrides +
  o_config :: "string option"

definition update :: "'a overrides_scheme \<Rightarrow> config \<Rightarrow> config" where
  \<comment> \<open>\<^verbatim>\<open>DEFAULTS[key] = value\<close> for every key whose value is not \<^verbatim>\<open>None\<close>\<close>
  "update v d = \<lparr>ip = (case o_ip v of None \<Rightarrow> ip d | Some x \<Rightarrow> x),
     color = (case o_color v of None \<Rightarrow> color d | Some x \<Rightarrow> x),
     starttemp = (case o_starttemp v of None \<Rightarrow> starttemp d | Some x \<Rightarrow> x),
     finaltemp = (case o_finaltemp v of None \<Rightarrow> finaltemp d | Some x \<Rightarrow> x),
     time = (case o_time v of None \<Rightarrow> time d | Some x \<Rightarrow> x),
     og = (case o_og v of None \<Rightarrow> og d | Some x \<Rightarrow> x),
     fg = (case o_fg v of None \<Rightarrow> fg d | Some x \<Rightarrow> x)\<rparr>"

section \<open>The log file, the notifier and the console\<close>

datatype log_line =
  Simulation_Starting string rat rat int rat rat
    \<comment> \<open>colour, starting gravity, starting temperature, run time, final gravity, final temperature\<close>
| Simulation_at_Start int rat rat string
    \<comment> \<open>version, starting temperature, starting gravity, colour\<close>
| Simulation_Complete int rat rat string
    \<comment> \<open>version, final temperature, final gravity, colour\<close>
| Current_Reading rat rat string
    \<comment> \<open>current temperature, current gravity, colour\<close>

datatype console_line =
  Fermentation_started | Error_updating_log | Error_executing_curl
| Error_parsing_config string | Fermentation_complete

text \<open>
  The world outside the program: the lines in the log file, the curl commands that were
  run (address, colour, temperature, gravity), what was printed, and how many times the
  file was written to and a subprocess was started. A line and a command hold the values
  they were built from; \<open>printed_temp\<close> and \<open>printed_gravity\<close> give the
  digits that appear in the text. Timestamps and sleeping are left out.
\<close>

record world =
  log_file :: "log_line list"
  curl_commands :: "(string \<times> string \<times> rat \<times> rat) list"
  console :: "console_line list"
  writes :: nat
  runs :: nat

datatype yaml_file = FileNotFound | YAMLError | Document overrides

text \<open>
  What the program cannot control: which calls of \<^verbatim>\<open>log_file.write\<close> (with its flush)
  and of \<^verbatim>\<open>subprocess.run\<close> raise, counted from 0, what is found at a path, and the
  numbers that successive calls of \<^verbatim>\<open>random.random()\<close> would return.
\<close>

record env =
  write_raises :: "nat \<Rightarrow> bool"
  run_raises :: "nat \<Rightarrow> bool"
  files :: "string \<Rightarrow> yaml_file"
  random :: "nat \<Rightarrow> rat"

definition generate_random_temp_increment :: "env \<Rightarrow> nat \<Rightarrow> rat" where
  \<comment> \<open>\<^verbatim>\<open>random.uniform(0.000, 0.099)\<close>, that is \<^verbatim>\<open>a + (b - a) * random()\<close>, at the \<open>k\<close>-th draw\<close>
  "generate_random_temp_increment e k = rd (0 + rd (rd (rd (99 / 1000) - 0) * random e k))"

definition printed_temp :: "rat \<Rightarrow> rat" where
  \<comment> \<open>a temperature as the log line and the curl command show it: \<^verbatim>\<open>:.1f\<close>\<close>
  "printed_temp x = format_f 1 x"


definition file_write :: "env \<Rightarrow> log_line \<Rightarrow> world \<Rightarrow> world \<times> bool" where
  "file_write e l w =
     (if write_raises e (writes w) then (w\<lparr>writes := Suc (writes w)\<rparr>, False)
      else (w\<lparr>log_file := log_file w @ [l], writes := Suc (writes w)\<rparr>, True))"

definition update_log ::
  "env \<Rightarrow> config \<Rightarrow> world \<Rightarrow> int \<Rightarrow> rat \<Rightarrow> string \<Rightarrow> rat \<Rightarrow> rat \<Rightarrow> rat \<Rightarrow> bool \<Rightarrow> bool \<Rightarrow> world" where
  "update_log e d w version current_temp_fahrenheit colour gravity start_temp_fahrenheit og_value
       is_start is_end =
     (let (w', ok) =
        (if is_start then
           file_write e (Simulation_Starting colour gravity current_temp_fahrenheit
             (time d) (fg d) (finaltemp d)) w
         else if is_end then
           (case file_write e (Simulation_at_Start version start_temp_fahrenheit og_value colour) w of
              (w1, False) \<Rightarrow> (w1, False)
            | (w1, True) \<Rightarrow>
                file_write e (Simulation_Complete version current_temp_fahrenheit gravity colour) w1)
         else file_write e (Current_Reading current_temp_fahrenheit gravity colour) w)
      in if ok then w' else w'\<lparr>console := console w' @ [Error_updating_log]\<rparr>)"

definition execute_curl_command :: "env \<Rightarrow> world \<Rightarrow> string \<Rightarrow> string \<Rightarrow> rat \<Rightarrow> rat \<Rightarrow> world" where
  "execute_curl_command e w ip_addr colour current_temp_fahrenheit gravity =
     (if run_raises e (runs w)
      then w\<lparr>runs := Suc (runs w), console := console w @ [Error_executing_curl]\<rparr>
      else w\<lparr>runs := Suc (runs w),
        curl_commands := curl_commands w @ [(ip_addr, colour, current_temp_fahrenheit, gravity)]\<rparr>)"

definition read_config_file :: "env \<Rightarrow> string \<Rightarrow> world \<Rightarrow> overrides option \<times> world" where
  "read_config_file e file_path w =
     (case files e file_path of
        Document c \<Rightarrow> (Some c, w)
      | FileNotFound \<Rightarrow> (None, w)
      | YAMLError \<Rightarrow> (None, w\<lparr>console := console w @ [Error_parsing_config file_path]\<rparr>))"

definition determine_direction :: "int \<Rightarrow> int \<Rightarrow> string" where
  "determine_direction start_temp end_temp = (if start_temp > end_temp then ''down'' else ''up'')"

section \<open>The simulation\<close>

definition to_milli_celsius :: "rat \<Rightarrow> int" where
  \<comment> \<open>\<^verbatim>\<open>int((t - 32) * 5/9 * 1000)\<close>\<close>
  "to_milli_celsius t = py_int (rd (rd (rd (rd (t - 32) * 5) / 9) * 1000))"

definition to_fahrenheit :: "rat \<Rightarrow> rat" where
  \<comment> \<open>\<^verbatim>\<open>start_temp / 1000 * 9/5 + 32\<close>, on an int or a float\<close>
  "to_fahrenheit s = rd (rd (rd (rd (s / 1000) * 9) / 5) + 32)"

text \<open>The variables the loop changes, and the ones it only reads.\<close>

record sim =
  start_temp :: rat
  current_temp_fahrenheit :: rat
  gravity :: rat
  io :: world

record locals =
  defaults :: config
  direction :: string
  end_temp :: int
  temp_change_per_interval :: rat
  final_gravity :: rat
  number_of_changes :: int
  start_temp_fahrenheit :: rat

definition target_reached :: "locals \<Rightarrow> rat \<Rightarrow> bool" where
  \<comment> \<open>the test that leaves the loop, on the current \<^verbatim>\<open>start_temp\<close>\<close>
  "target_reached l t \<longleftrightarrow>
     (direction l = ''up'' \<and> t \<ge> of_int (end_temp l)) \<or>
     (direction l = ''down'' \<and> t \<le> of_int (end_temp l))"

definition advance :: "locals \<Rightarrow> rat \<Rightarrow> rat" where
  \<comment> \<open>\<^verbatim>\<open>start_temp += abs(...)\<close> or \<^verbatim>\<open>start_temp -= abs(...)\<close>; an int is converted to a float\<close>
  "advance l t =
     (if direction l = ''up'' then rd (rd t + \<bar>temp_change_per_interval l\<bar>)
      else rd (rd t - \<bar>temp_change_per_interval l\<bar>))"

definition gravity_change :: "locals \<Rightarrow> py_error + rat" where
  \<comment> \<open>\<^verbatim>\<open>(DEFAULTS['og'] - final_gravity) / number_of_changes\<close>\<close>
  "gravity_change l = float_truediv (rd (og (defaults l) - final_gravity l)) (number_of_changes l)"

definition lower :: "locals \<Rightarrow> rat \<Rightarrow> rat \<Rightarrow> rat" where
  \<comment> \<open>\<^verbatim>\<open>max(final_gravity, gravity - gravity_change)\<close>\<close>
  "lower l change g = max (final_gravity l) (rd (g - change))"

definition tick :: "env \<Rightarrow> locals \<Rightarrow> sim \<Rightarrow> py_error + sim" where
  "tick e l s =
     (let t = advance l (start_temp s);
          f = to_fahrenheit t;
          w1 = update_log e (defaults l) (io s) script_version f (color (defaults l)) (gravity s)
                 (start_temp_fahrenheit l) (og (defaults l)) False False;
          w2 = execute_curl_command e w1 (ip (defaults l)) (color (defaults l)) f (gravity s)
      in case gravity_change l of
           Inl err \<Rightarrow> Inl err
         | Inr change \<Rightarrow>
             Inr \<lparr>start_temp = t, current_temp_fahrenheit = f,
               gravity = lower l change (gravity s), io = w2\<rparr>)"

fun simulation_loop :: "env \<Rightarrow> locals \<Rightarrow> nat \<Rightarrow> sim \<Rightarrow> py_error + sim" where
  "simulation_loop e l 0 s = Inr s"
| "simulation_loop e l (Suc k) s =
     (if target_reached l (start_temp s) then Inr s
      else case tick e l s of Inl err \<Rightarrow> Inl err | Inr s' \<Rightarrow> simulation_loop e l k s')"

definition resolve :: "env \<Rightarrow> args \<Rightarrow> world \<Rightarrow> config \<times> world" where
  "resolve e a w =
     (let (d, w') =
        (case o_config a of
           None \<Rightarrow> (DEFAULTS, w)
         | Some path \<Rightarrow>
             if path = [] then (DEFAULTS, w)
             else (case read_config_file e path w of
                     (None, w1) \<Rightarrow> (DEFAULTS, w1)
                   | (Some config_data, w1) \<Rightarrow> (update config_data DEFAULTS, w1)))
      in (update a d, w'))"

definition locals_of :: "config \<Rightarrow> rat \<Rightarrow> locals" where
  \<comment> \<open>the values \<^verbatim>\<open>main\<close> computes before the loop and does not change in it\<close>
  "locals_of d change =
     \<lparr>defaults = d,
      direction = determine_direction (to_milli_celsius (starttemp d)) (to_milli_celsius (finaltemp d)),
      end_temp = to_milli_celsius (finaltemp d),
      temp_change_per_interval = change,
      final_gravity = min (og d) (fg d),
      number_of_changes = time d * 60,
      start_temp_fahrenheit = starttemp d\<rparr>"

definition begin_run :: "env \<Rightarrow> config \<Rightarrow> world \<Rightarrow> sim" where
  \<comment> \<open>the start message, the opened (emptied) log file with its start line, the first state\<close>
  "begin_run e d w =
     (let start = to_milli_celsius (starttemp d);
          f = to_fahrenheit (of_int start);
          w1 = w\<lparr>console := console w @ [Fermentation_started], log_file := []\<rparr>;
          w2 = update_log e d w1 script_version f (color d) (max (og d) (fg d))
                 (starttemp d) (og d) True False
      in \<lparr>start_temp = of_int start, current_temp_fahrenheit = f,
           gravity = max (og d) (fg d), io = w2\<rparr>)"

definition end_run :: "env \<Rightarrow> config \<Rightarrow> sim \<Rightarrow> world" where
  \<comment> \<open>the final curl command, the two closing log lines and the completion message\<close>
  "end_run e d s =
     (let w3 = execute_curl_command e (io s) (ip d) (color d)
                 (current_temp_fahrenheit s) (gravity s);
          w4 = update_log e d w3 script_version (current_temp_fahrenheit s) (color d)
                 (gravity s) (starttemp d) (og d) False True
      in w4\<lparr>console := console w4 @ [Fermentation_complete]\<rparr>)"

definition simulate :: "env \<Rightarrow> config \<Rightarrow> world \<Rightarrow> py_error + world" where
  "simulate e d w =
     (let total_temp_change = to_milli_celsius (finaltemp d) - to_milli_celsius (starttemp d)
      in case int_truediv total_temp_change (time d * 60) of
           Inl err \<Rightarrow> Inl err
         | Inr change \<Rightarrow>
             (let l = locals_of d change
              in case simulation_loop e l (nat (number_of_changes l)) (begin_run e d w) of
                   Inl err \<Rightarrow> Inl err
                 | Inr s \<Rightarrow> Inr (end_run e d s)))"

definition world0 :: world where
  "world0 = \<lparr>log_file = [], curl_commands = [], console = [], writes = 0, runs = 0\<rparr>"

definition main :: "env \<Rightarrow> args \<Rightarrow> py_error + world" where
  "main e a = (let (d, w) = resolve e a world0 in simulate e d w)"

section \<open>What a run emits\<close>

text \<open>
  The temperature and the gravity that the loop hands to the log and to curl on each of
  its ticks, written as a list: \<open>k\<close> iterations are left, \<open>t\<close> is the current
  \<^verbatim>\<open>start_temp\<close>, \<open>g\<close> the current gravity and \<open>c\<close> the gravity change.
\<close>

fun trace :: "locals \<Rightarrow> rat \<Rightarrow> nat \<Rightarrow> rat \<Rightarrow> rat \<Rightarrow> (rat \<times> rat) list" where
  "trace l c 0 t g = []"
| "trace l c (Suc k) t g =
     (if target_reached l t then []
      else (to_fahrenheit (advance l t), g) # trace l c k (advance l t) (lower l c g))"

definition reading_line :: "locals \<Rightarrow> rat \<times> rat \<Rightarrow> log_line" where
  "reading_line l = (\<lambda>(t, g). Current_Reading t g (color (defaults l)))"

definition command :: "locals \<Rightarrow> rat \<times> rat \<Rightarrow> string \<times> string \<times> rat \<times> rat" where
  "command l = (\<lambda>(t, g). (ip (defaults l), color (defaults l), t, g))"

text \<open>
  For a run whose duration is not 0: the temperature change per interval, the locals,
  the gravity change, the ticks of the whole loop, and the temperature and gravity that
  the final curl command and the completion line report.
\<close>

definition the_locals :: "config \<Rightarrow> locals" where
  "the_locals d =
     locals_of d (rd (of_int (to_milli_celsius (finaltemp d) - to_milli_celsius (starttemp d)) /
       of_int (time d * 60)))"

definition the_change :: "config \<Rightarrow> rat" where
  "the_change d = rd (rd (og d - min (og d) (fg d)) / rd (of_int (time d * 60)))"

definition run_trace :: "config \<Rightarrow> (rat \<times> rat) list" where
  "run_trace d =
     trace (the_locals d) (the_change d) (nat (time d * 60))
       (of_int (to_milli_celsius (starttemp d))) (max (og d) (fg d))"

definition final_temp :: "config \<Rightarrow> rat" where
  "final_temp d =
     (if run_trace d = [] then to_fahrenheit (of_int (to_milli_celsius (starttemp d)))
      else fst (last (run_trace d)))"

definition final_grav :: "config \<Rightarrow> rat" where
  "final_grav d =
     (if run_trace d = [] then max (og d) (fg d)
      else lower (the_locals d) (the_change d) (snd (last (run_trace d))))"

fun reading :: "log_line \<Rightarrow> (rat \<times> rat) option" where
  "reading (Current_Reading t g c) = Some (t, g)"
| "reading _ = None"

fun line_gravity :: "log_line \<Rightarrow> rat option" where
  \<comment> \<open>the gravity a line reports as the current one; the summary of the start has none\<close>
  "line_gravity (Simulation_Starting c g t m fg' ft) = Some g"
| "line_gravity (Simulation_at_Start v t g c) = None"
| "line_gravity (Simulation_Complete v t g c) = Some g"
| "line_gravity (Current_Reading t g c) = Some g"

definition logged_gravities :: "world \<Rightarrow> rat list" where
  "logged_gravities w = List.map_filter line_gravity (log_file w)"

definition sent_gravities :: "world \<Rightarrow> rat list" where
  "sent_gravities w = map (\<lambda>(a, c, t, g). g) (curl_commands w)"

definition readings :: "world \<Rightarrow> (rat \<times> rat) list" where
  "readings w = List.map_filter reading (log_file w)"

definition quiet :: "env \<Rightarrow> bool" where
  \<comment> \<open>no write to the log file and no subprocess raises\<close>
  "quiet e \<longleftrightarrow> (\<forall>k. \<not> write_raises e k) \<and> (\<forall>k. \<not> run_raises e k)"

text \<open>
  The loop followed on the temperature alone: from \<open>k\<close> iterations left, \<open>n\<close> ticks done
  and the current \<^verbatim>\<open>start_temp\<close>, the number of ticks done and the temperature when
  the loop is left.
\<close>

fun fast_forward :: "locals \<Rightarrow> nat \<Rightarrow> nat \<Rightarrow> rat \<Rightarrow> nat \<times> rat" where
  "fast_forward l 0 n t = (n, t)"
| "fast_forward l (Suc k) n t =
     (if target_reached l t then (n, t) else fast_forward l k (n + 1) (advance l t))"

text \<open>An environment in which nothing raises, and a command line without arguments.\<close>

definition calm :: env where
  "calm = \<lparr>write_raises = (\<lambda>k. False), run_raises = (\<lambda>k. False),
     files = (\<lambda>path. FileNotFound), random = (\<lambda>k. 0)\<rparr>"

definition no_args :: args where
  "no_args = \<lparr>o_ip = None, o_color = None, o_starttemp = None, o_finaltemp = None,
     o_og = None, o_fg = None, o_time = None, o_config = None\<rparr>"

text \<open>The command line \<^verbatim>\<open>--starttemp 32 --finaltemp 43.25 --time 1\<close>.\<close>

definition up_args :: args where
  "up_args = no_args\<lparr>o_starttemp := Some 32, o_finaltemp := Some (173 / 4), o_time := Some 1\<rparr>"

text \<open>The command line \<^verbatim>\<open>--time 1\<close>: every other parameter at its default.\<close>

definition minute_args :: args where
  "minute_args = no_args\<lparr>o_time := Some 1\<rparr>"

text \<open>
  The parameters a command line resolves to, and the order that the gravities of a run
  keep: the ones logged and sent so far do not increase, none is below the current
  gravity or above \<open>hi\<close>, and the current gravity is a float between \<open>lo\<close> and \<open>hi\<close>.
\<close>

definition parameters :: "env \<Rightarrow> args \<Rightarrow> config" where
  "parameters e a = fst (resolve e a world0)"

definition gravity_order :: "env \<Rightarrow> rat \<Rightarrow> rat \<Rightarrow> sim \<Rightarrow> bool" where
  "gravity_order e lo hi s \<longleftrightarrow>
     sorted_wrt (\<ge>) (logged_gravities (io s)) \<and> sorted_wrt (\<ge>) (sent_gravities (io s)) \<and>
     (\<forall>g \<in> set (logged_gravities (io s)) \<union> set (sent_gravities (io s)). gravity s \<le> g \<and> g \<le> hi) \<and>
     lo \<le> gravity s \<and> gravity s \<le> hi \<and> rd (gravity s) = gravity s"






text \<open>
  An environment in which only the first write to the log file raises, and the command
  line \<^verbatim>\<open>--starttemp 32 --finaltemp 32 --time 1\<close>.
\<close>

definition first_write_fails :: env where
  "first_write_fails = \<lparr>write_raises = (\<lambda>k. k = 0), run_raises = (\<lambda>k. False),
     files = (\<lambda>path. FileNotFound), random = (\<lambda>k. 0)\<rparr>"

definition still_args :: args where
  "still_args = no_args\<lparr>o_starttemp := Some 32, o_finaltemp := Some 32, o_time := Some 1\<rparr>"




text \<open>The command line \<^verbatim>\<open>--og 1.0 --fg 1.5 --time 1\<close>: the lower gravity labelled OG.\<close>

definition swapped_args :: args where
  "swapped_args = no_args\<lparr>o_og := Some 1, o_fg := Some (3 / 2), o_time := Some 1\<rparr>"

section \<open>Rounding\<close>

lemma rne_bounds: "of_int (rne x) \<le> x + 1/2" "x - 1/2 \<le> of_int (rne x)"
  unfolding rne_def Let_def by (auto; linarith)+

lemma rne_of_int [simp]: "rne (of_int k) = k"
  by (simp add: rne_def)

lemma rne_mono:
  assumes "x \<le> y"
  shows "rne x \<le> rne y"
proof (cases "\<lfloor>x\<rfloor> = \<lfloor>y\<rfloor>")
  case True
  then show ?thesis
    using assms unfolding rne_def Let_def by auto
next
  case False
  moreover have "\<lfloor>x\<rfloor> \<le> \<lfloor>y\<rfloor>"
    using assms by (rule floor_mono)
  ultimately have "\<lfloor>x\<rfloor> + 1 \<le> \<lfloor>y\<rfloor>"
    by simp
  moreover have "rne x \<le> \<lfloor>x\<rfloor> + 1"
    unfolding rne_def Let_def by auto
  moreover have "\<lfloor>y\<rfloor> \<le> rne y"
    unfolding rne_def Let_def by auto
  ultimately show ?thesis
    by linarith
qed

lemma rne_minus: "rne (- x) = - rne x"
proof (cases "x \<in> \<int>")
  case True
  then obtain k where "x = of_int k"
    by (auto elim: Ints_cases)
  then show ?thesis
    by (simp add: rne_def flip: of_int_minus)
next
  case False
  have ne: "x \<noteq> of_int \<lfloor>x\<rfloor>"
    using False by (metis Ints_of_int)
  then have fl: "\<lfloor>- x\<rfloor> = - \<lfloor>x\<rfloor> - 1"
    by (simp add: floor_minus ceiling_altdef)
  have lt: "of_int \<lfloor>x\<rfloor> < x"
    using ne of_int_floor_le [of x] by linarith
  show ?thesis
    unfolding rne_def Let_def fl using lt by (auto simp: field_simps)
qed

lemma bitlen_rat_bounds:
  assumes "0 < p"
  shows "2 powi (bitlen p - 1) \<le> (of_int p :: rat)" "(of_int p :: rat) < 2 powi (bitlen p)"
proof -
  have b: "2 ^ nat (bitlen p - 1) \<le> p" "p < 2 ^ nat (bitlen p)"
    using bitlen_bounds [OF assms] by auto
  have pos: "1 \<le> bitlen p"
    using assms by (simp add: bitlen_alt_def)
  have "(of_int (2 ^ nat (bitlen p - 1)) :: rat) \<le> of_int p"
    using b(1) by (simp only: of_int_le_iff)
  then show "2 powi (bitlen p - 1) \<le> (of_int p :: rat)"
    using pos by (simp add: power_int_def)
  have "(of_int p :: rat) < of_int (2 ^ nat (bitlen p))"
    using b(2) by (simp only: of_int_less_iff)
  then show "(of_int p :: rat) < 2 powi (bitlen p)"
    using pos by (simp add: power_int_def)
qed

lemma ilog2_bounds:
  assumes "0 < x"
  shows "2 powi (ilog2 x) \<le> x" "x < 2 powi (ilog2 x + 1)"
proof -
  obtain p q where pq: "quotient_of x = (p, q)"
    by (cases "quotient_of x")
  then have q: "0 < q" and x: "x = of_int p / of_int q"
    by (auto simp: quotient_of_denom_pos quotient_of_div)
  with assms have p: "0 < p"
    by (simp add: zero_less_divide_iff)
  define d where "d = bitlen p - bitlen q"
  have "x < 2 powi (bitlen p) / 2 powi (bitlen q - 1)"
    unfolding x using bitlen_rat_bounds [OF p] bitlen_rat_bounds [OF q] q p
    by (intro frac_less) auto
  also have "\<dots> = 2 powi (bitlen p - (bitlen q - 1))"
    by (rule power_int_diff [symmetric]) simp
  also have "bitlen p - (bitlen q - 1) = d + 1"
    by (simp add: d_def)
  finally have up: "x < 2 powi (d + 1)" .
  have "d - 1 = bitlen p - 1 - bitlen q"
    by (simp add: d_def)
  then have "(2::rat) powi (d - 1) = 2 powi (bitlen p - 1 - bitlen q)"
    by (simp only:)
  also have "\<dots> = 2 powi (bitlen p - 1) / 2 powi bitlen q"
    by (rule power_int_diff) simp
  also have "\<dots> \<le> x"
    unfolding x using bitlen_rat_bounds [OF p] bitlen_rat_bounds [OF q] q p
    by (intro frac_le) auto
  finally have lo: "2 powi (d - 1) \<le> x" .
  have e: "ilog2 x = (if 2 powi d \<le> x then d else d - 1)"
    by (simp add: ilog2_def pq d_def)
  show "2 powi (ilog2 x) \<le> x" "x < 2 powi (ilog2 x + 1)"
    using up lo by (auto simp: e)
qed

lemma ilog2_unique:
  assumes "2 powi e \<le> x" "x < 2 powi (e + 1)"
  shows "ilog2 x = e"
proof -
  have "(0::rat) < 2 powi e"
    by simp
  with assms have x: "0 < x"
    by linarith
  have "2 powi (ilog2 x) < (2::rat) powi (e + 1)"
    using ilog2_bounds(1) [OF x] assms(2) by linarith
  then have "ilog2 x < e + 1"
    using power_int_increasing [of "e + 1" "ilog2 x" "2::rat"] by force
  moreover have "2 powi e < (2::rat) powi (ilog2 x + 1)"
    using ilog2_bounds(2) [OF x] assms(1) by linarith
  then have "e < ilog2 x + 1"
    using power_int_increasing [of "ilog2 x + 1" e "2::rat"] by force
  ultimately show ?thesis
    by linarith
qed

lemma rd_eval:
  assumes "2 powi e \<le> \<bar>x\<bar>" "\<bar>x\<bar> < 2 powi (e + 1)"
  shows "rd x = of_int (rne (x / 2 powi (e - 52))) * 2 powi (e - 52)"
proof -
  have "(0::rat) < 2 powi e"
    by simp
  with assms(1) have "x \<noteq> 0"
    by linarith
  then show ?thesis
    by (simp add: rd_def Let_def ilog2_unique [OF assms])
qed

lemma rd_minus: "rd (- x) = - rd x"
  by (simp add: rd_def Let_def rne_minus)

lemma rd_pos_bounds:
  assumes "0 < x"
  shows "2 powi (ilog2 x) \<le> rd x" "rd x \<le> 2 powi (ilog2 x + 1)"
proof -
  define e where "e = ilog2 x"
  define q :: rat where "q = 2 powi (e - 52)"
  have q: "0 < q"
    by (simp add: q_def)
  have rd: "rd x = of_int (rne (x / q)) * q"
    using assms by (simp add: rd_def Let_def e_def q_def)
  have e52: "2 powi e = of_int (2 ^ 52) * q"
    using power_int_add [of "2::rat" 52 "e - 52"] by (simp add: q_def)
  have e53: "2 powi (e + 1) = of_int (2 ^ 53) * q"
    using power_int_add [of "2::rat" 53 "e - 52"] by (simp add: q_def ac_simps)
  have "of_int (2 ^ 52) * q \<le> x"
    using ilog2_bounds(1) [OF assms] unfolding e_def [symmetric] e52 .
  then have "of_int (2 ^ 52) \<le> x / q"
    using q by (simp add: pos_le_divide_eq)
  then have "rne (of_int (2 ^ 52)) \<le> rne (x / q)"
    by (rule rne_mono)
  then have "(of_int (2 ^ 52) :: rat) \<le> of_int (rne (x / q))"
    by (simp only: rne_of_int of_int_le_iff)
  then have "of_int (2 ^ 52) * q \<le> rd x"
    unfolding rd using q by (simp only: mult_le_cancel_right_pos)
  then show "2 powi (ilog2 x) \<le> rd x"
    unfolding e_def [symmetric] e52 .
  have "x < of_int (2 ^ 53) * q"
    using ilog2_bounds(2) [OF assms] unfolding e_def [symmetric] e53 .
  then have "x / q \<le> of_int (2 ^ 53)"
    using q by (simp add: pos_divide_le_eq)
  then have "rne (x / q) \<le> rne (of_int (2 ^ 53))"
    by (rule rne_mono)
  then have "(of_int (rne (x / q)) :: rat) \<le> of_int (2 ^ 53)"
    by (simp only: rne_of_int of_int_le_iff)
  then have "rd x \<le> of_int (2 ^ 53) * q"
    unfolding rd using q by (simp only: mult_le_cancel_right_pos)
  then show "rd x \<le> 2 powi (ilog2 x + 1)"
    unfolding e_def [symmetric] e53 .
qed

lemma rd_pos: "0 < x \<Longrightarrow> 0 < rd x"
proof -
  assume "0 < x"
  then have "2 powi (ilog2 x) \<le> rd x"
    by (rule rd_pos_bounds)
  moreover have "(0::rat) < 2 powi (ilog2 x)"
    by simp
  ultimately show ?thesis
    by linarith
qed

lemma rd_mono_pos:
  assumes "0 < x" "x \<le> y"
  shows "rd x \<le> rd y"
proof (cases "ilog2 x = ilog2 y")
  case True
  have y: "0 < y"
    using assms by linarith
  have "rne (x / 2 powi (ilog2 y - 52)) \<le> rne (y / 2 powi (ilog2 y - 52))"
    using assms(2) by (intro rne_mono divide_right_mono) auto
  then show ?thesis
    using assms(1) y True by (simp add: rd_def Let_def)
next
  case False
  have y: "0 < y"
    using assms by linarith
  have "2 powi (ilog2 x) < (2::rat) powi (ilog2 y + 1)"
    using ilog2_bounds(1) [OF assms(1)] ilog2_bounds(2) [OF y] assms(2) by linarith
  then have "ilog2 x < ilog2 y + 1"
    using power_int_increasing [of "ilog2 y + 1" "ilog2 x" "2::rat"] by force
  with False have "ilog2 x + 1 \<le> ilog2 y"
    by linarith
  then have "2 powi (ilog2 x + 1) \<le> (2::rat) powi (ilog2 y)"
    by (intro power_int_increasing) auto
  then show ?thesis
    using rd_pos_bounds(2) [OF assms(1)] rd_pos_bounds(1) [OF y] by linarith
qed

lemma rd_mono:
  assumes "x \<le> y"
  shows "rd x \<le> rd y"
proof -
  consider "0 < x" | "x \<le> 0" "0 \<le> y" | "y < 0"
    using assms by linarith
  then show ?thesis
  proof cases
    case 1
    then show ?thesis
      using assms by (rule rd_mono_pos)
  next
    case 2
    have "rd x \<le> 0"
    proof (cases "x = 0")
      case True
      then show ?thesis
        by (simp add: rd_def)
    next
      case False
      with 2(1) have "0 < rd (- x)"
        by (intro rd_pos) auto
      then show ?thesis
        by (simp add: rd_minus)
    qed
    moreover have "0 \<le> rd y"
    proof (cases "y = 0")
      case True
      then show ?thesis
        by (simp add: rd_def)
    next
      case False
      with 2(2) have "0 < rd y"
        by (intro rd_pos) auto
      then show ?thesis
        by simp
    qed
    ultimately show ?thesis
      by linarith
  next
    case 3
    then have "rd (- y) \<le> rd (- x)"
      using assms by (intro rd_mono_pos) auto
    then show ?thesis
      by (simp add: rd_minus)
  qed
qed

lemma rd_idem_pos:
  assumes "0 < x"
  shows "rd (rd x) = rd x"
proof -
  define e where "e = ilog2 x"
  define q :: rat where "q = 2 powi (e - 52)"
  define m where "m = rne (x / q)"
  have rd: "rd x = of_int m * q"
    using assms by (simp add: rd_def Let_def e_def q_def m_def)
  have lo: "2 powi e \<le> rd x" and hi: "rd x \<le> 2 powi (e + 1)"
    using rd_pos_bounds [OF assms] by (simp_all add: e_def)
  show ?thesis
  proof (cases "rd x < 2 powi (e + 1)")
    case True
    have "\<bar>rd x\<bar> = rd x"
      using rd_pos [OF assms] by simp
    then have "rd (rd x) = of_int (rne (rd x / q)) * q"
      using rd_eval [of e "rd x"] lo True by (simp add: q_def)
    also have "rd x / q = of_int m"
      by (simp add: rd q_def)
    finally show ?thesis
      by (simp add: rd)
  next
    case False
    with hi have eq: "rd x = 2 powi (e + 1)"
      by linarith
    have "rd (2 powi (e + 1)) = of_int (rne (2 powi (e + 1) / 2 powi (e + 1 - 52))) * 2 powi (e + 1 - 52)"
      by (rule rd_eval) (simp_all add: power_int_strict_increasing)
    also have "(2::rat) powi (e + 1) / 2 powi (e + 1 - 52) = of_int (2 ^ 52)"
      using power_int_diff [of "2::rat" "e + 1" "e + 1 - 52"] by simp
    also have "of_int (rne (of_int (2 ^ 52))) * 2 powi (e + 1 - 52) = (2::rat) powi (e + 1)"
      using power_int_add [of "2::rat" 52 "e + 1 - 52"] by (simp only: rne_of_int) (simp add: ac_simps)
    finally show ?thesis
      by (simp only: eq)
  qed
qed

lemma rd_idem [simp]: "rd (rd x) = rd x"
proof -
  consider "0 < x" | "x = 0" | "0 < - x"
    by linarith
  then show ?thesis
  proof cases
    case 1
    then show ?thesis
      by (rule rd_idem_pos)
  next
    case 2
    then show ?thesis
      by (simp add: rd_def)
  next
    case 3
    then have "rd (rd (- x)) = rd (- x)"
      by (rule rd_idem_pos)
    then show ?thesis
      by (simp add: rd_minus)
  qed
qed

lemma rd_zero [simp]: "rd 0 = 0"
  by (simp add: rd_def)

lemma rd_nonneg: "0 \<le> x \<Longrightarrow> 0 \<le> rd x"
  using rd_mono [of 0 x] by simp

lemma rd_scale:
  assumes "2 ^ 52 \<le> \<bar>x\<bar> * 2 ^ n" "\<bar>x\<bar> * 2 ^ n < 2 ^ 53"
  shows "rd x = of_int (rne (x * 2 ^ n)) / 2 ^ n"
proof -
  have p: "(2::rat) powi (52 - int n - 52) = 1 / 2 ^ n"
    by (simp add: power_int_minus field_simps)
  have a: "(2::rat) powi (52 - int n) = 2 ^ 52 / 2 ^ n"
    using power_int_diff [of "2::rat" 52 "int n"] by simp
  have b: "(2::rat) powi (52 - int n + 1) = 2 ^ 53 / 2 ^ n"
    using power_int_diff [of "2::rat" 53 "int n"] by (simp add: ac_simps)
  have "rd x = of_int (rne (x / 2 powi (52 - int n - 52))) * 2 powi (52 - int n - 52)"
    using assms by (intro rd_eval) (simp_all only: a b, simp_all add: field_simps)
  then show ?thesis
    by (simp only: p) simp
qed

lemma rne_frac:
  assumes "0 < b"
  shows "rne (of_int a / of_int b) =
    (if 2 * (a mod b) < b then a div b else if b < 2 * (a mod b) then a div b + 1
     else if even (a div b) then a div b else a div b + 1)"
proof -
  have fl: "\<lfloor>(of_int a / of_int b :: rat)\<rfloor> = a div b"
    by (simp add: floor_divide_of_int_eq)
  have "(of_int a / of_int b :: rat) - of_int (a div b) =
      (of_int a - of_int (a div b) * of_int b) / of_int b"
    using assms by (simp add: field_simps)
  also have "(of_int a - of_int (a div b) * of_int b :: rat) = of_int (a mod b)"
    by (simp add: minus_div_mult_eq_mod flip: of_int_mult of_int_diff)
  finally have r: "(of_int a / of_int b :: rat) - of_int (a div b) = of_int (a mod b) / of_int b" .
  have "(of_int (a mod b) / of_int b :: rat) < 1 / 2 \<longleftrightarrow>
      (of_int (2 * (a mod b)) :: rat) < of_int b"
    using assms by (simp add: field_simps)
  then have lt: "(of_int (a mod b) / of_int b :: rat) < 1 / 2 \<longleftrightarrow> 2 * (a mod b) < b"
    by (simp only: of_int_less_iff)
  have "1 / 2 < (of_int (a mod b) / of_int b :: rat) \<longleftrightarrow>
      (of_int b :: rat) < of_int (2 * (a mod b))"
    using assms by (simp add: field_simps)
  then have gt: "1 / 2 < (of_int (a mod b) / of_int b :: rat) \<longleftrightarrow> b < 2 * (a mod b)"
    by (simp only: of_int_less_iff)
  show ?thesis
    by (simp only: rne_def Let_def fl r lt gt)
qed

lemma rne_numeral_frac:
  "rne (numeral a / numeral b) =
    (if 2 * (numeral a mod numeral b) < (numeral b :: int) then numeral a div numeral b
     else if (numeral b :: int) < 2 * (numeral a mod numeral b) then numeral a div numeral b + 1
     else if even (numeral a div numeral b :: int) then numeral a div numeral b
     else numeral a div numeral b + 1)"
  using rne_frac [of "numeral b" "numeral a"] by simp

lemma rne_numeral [simp]: "rne (numeral a) = numeral a"
  using rne_of_int [of "numeral a"] by simp


text \<open>
  Rounding a number whose binary exponent is known, one rule for each exponent from
  \<open>-12\<close> to \<open>15\<close>; with them the simplifier computes \<open>rd\<close> on numerals.
\<close>

lemma rd_range_m12:
  "1 / 4096 \<le> \<bar>x\<bar> \<Longrightarrow> \<bar>x\<bar> < 1 / 2048 \<Longrightarrow> rd x = of_int (rne (x * 18446744073709551616)) / 18446744073709551616"
  using rd_scale [of x 64] by simp

lemma rd_range_m11:
  "1 / 2048 \<le> \<bar>x\<bar> \<Longrightarrow> \<bar>x\<bar> < 1 / 1024 \<Longrightarrow> rd x = of_int (rne (x * 9223372036854775808)) / 9223372036854775808"
  using rd_scale [of x 63] by simp

lemma rd_range_m10:
  "1 / 1024 \<le> \<bar>x\<bar> \<Longrightarrow> \<bar>x\<bar> < 1 / 512 \<Longrightarrow> rd x = of_int (rne (x * 4611686018427387904)) / 4611686018427387904"
  using rd_scale [of x 62] by simp

lemma rd_range_m9:
  "1 / 512 \<le> \<bar>x\<bar> \<Longrightarrow> \<bar>x\<bar> < 1 / 256 \<Longrightarrow> rd x = of_int (rne (x * 2305843009213693952)) / 2305843009213693952"
  using rd_scale [of x 61] by simp

lemma rd_range_m8:
  "1 / 256 \<le> \<bar>x\<bar> \<Longrightarrow> \<bar>x\<bar> < 1 / 128 \<Longrightarrow> rd x = of_int (rne (x * 1152921504606846976)) / 1152921504606846976"
  using rd_scale [of x 60] by simp

lemma rd_range_m7:
  "1 / 128 \<le> \<bar>x\<bar> \<Longrightarrow> \<bar>x\<bar> < 1 / 64 \<Longrightarrow> rd x = of_int (rne (x * 576460752303423488)) / 576460752303423488"
  using rd_scale [of x 59] by simp

lemma rd_range_m6:
  "1 / 64 \<le> \<bar>x\<bar> \<Longrightarrow> \<bar>x\<bar> < 1 / 32 \<Longrightarrow> rd x = of_int (rne (x * 288230376151711744)) / 288230376151711744"
  using rd_scale [of x 58] by simp

lemma rd_range_m5:
  "1 / 32 \<le> \<bar>x\<bar> \<Longrightarrow> \<bar>x\<bar> < 1 / 16 \<Longrightarrow> rd x = of_int (rne (x * 144115188075855872)) / 144115188075855872"
  using rd_scale [of x 57] by simp

lemma rd_range_m4:
  "1 / 16 \<le> \<bar>x\<bar> \<Longrightarrow> \<bar>x\<bar> < 1 / 8 \<Longrightarrow> rd x = of_int (rne (x * 72057594037927936)) / 72057594037927936"
  using rd_scale [of x 56] by simp

lemma rd_range_m3:
  "1 / 8 \<le> \<bar>x\<bar> \<Longrightarrow> \<bar>x\<bar> < 1 / 4 \<Longrightarrow> rd x = of_int (rne (x * 36028797018963968)) / 36028797018963968"
  using rd_scale [of x 55] by simp

lemma rd_range_m2:
  "1 / 4 \<le> \<bar>x\<bar> \<Longrightarrow> \<bar>x\<bar> < 1 / 2 \<Longrightarrow> rd x = of_int (rne (x * 18014398509481984)) / 18014398509481984"
  using rd_scale [of x 54] by simp

lemma rd_range_m1:
  "1 / 2 \<le> \<bar>x\<bar> \<Longrightarrow> \<bar>x\<bar> < 1 \<Longrightarrow> rd x = of_int (rne (x * 9007199254740992)) / 9007199254740992"
  using rd_scale [of x 53] by simp

lemma rd_range_0:
  "1 \<le> \<bar>x\<bar> \<Longrightarrow> \<bar>x\<bar> < 2 \<Longrightarrow> rd x = of_int (rne (x * 4503599627370496)) / 4503599627370496"
  using rd_scale [of x 52] by simp

lemma rd_range_1:
  "2 \<le> \<bar>x\<bar> \<Longrightarrow> \<bar>x\<bar> < 4 \<Longrightarrow> rd x = of_int (rne (x * 2251799813685248)) / 2251799813685248"
  using rd_scale [of x 51] by simp

lemma rd_range_2:
  "4 \<le> \<bar>x\<bar> \<Longrightarrow> \<bar>x\<bar> < 8 \<Longrightarrow> rd x = of_int (rne (x * 1125899906842624)) / 1125899906842624"
  using rd_scale [of x 50] by simp

lemma rd_range_3:
  "8 \<le> \<bar>x\<bar> \<Longrightarrow> \<bar>x\<bar> < 16 \<Longrightarrow> rd x = of_int (rne (x * 562949953421312)) / 562949953421312"
  using rd_scale [of x 49] by simp

lemma rd_range_4:
  "16 \<le> \<bar>x\<bar> \<Longrightarrow> \<bar>x\<bar> < 32 \<Longrightarrow> rd x = of_int (rne (x * 281474976710656)) / 281474976710656"
  using rd_scale [of x 48] by simp

lemma rd_range_5:
  "32 \<le> \<bar>x\<bar> \<Longrightarrow> \<bar>x\<bar> < 64 \<Longrightarrow> rd x = of_int (rne (x * 140737488355328)) / 140737488355328"
  using rd_scale [of x 47] by simp

lemma rd_range_6:
  "64 \<le> \<bar>x\<bar> \<Longrightarrow> \<bar>x\<bar> < 128 \<Longrightarrow> rd x = of_int (rne (x * 70368744177664)) / 70368744177664"
  using rd_scale [of x 46] by simp

lemma rd_range_7:
  "128 \<le> \<bar>x\<bar> \<Longrightarrow> \<bar>x\<bar> < 256 \<Longrightarrow> rd x = of_int (rne (x * 35184372088832)) / 35184372088832"
  using rd_scale [of x 45] by simp

lemma rd_range_8:
  "256 \<le> \<bar>x\<bar> \<Longrightarrow> \<bar>x\<bar> < 512 \<Longrightarrow> rd x = of_int (rne (x * 17592186044416)) / 17592186044416"
  using rd_scale [of x 44] by simp

lemma rd_range_9:
  "512 \<le> \<bar>x\<bar> \<Longrightarrow> \<bar>x\<bar> < 1024 \<Longrightarrow> rd x = of_int (rne (x * 8796093022208)) / 8796093022208"
  using rd_scale [of x 43] by simp

lemma rd_range_10:
  "1024 \<le> \<bar>x\<bar> \<Longrightarrow> \<bar>x\<bar> < 2048 \<Longrightarrow> rd x = of_int (rne (x * 4398046511104)) / 4398046511104"
  using rd_scale [of x 42] by simp

lemma rd_range_11:
  "2048 \<le> \<bar>x\<bar> \<Longrightarrow> \<bar>x\<bar> < 4096 \<Longrightarrow> rd x = of_int (rne (x * 2199023255552)) / 2199023255552"
  using rd_scale [of x 41] by simp

lemma rd_range_12:
  "4096 \<le> \<bar>x\<bar> \<Longrightarrow> \<bar>x\<bar> < 8192 \<Longrightarrow> rd x = of_int (rne (x * 1099511627776)) / 1099511627776"
  using rd_scale [of x 40] by simp

lemma rd_range_13:
  "8192 \<le> \<bar>x\<bar> \<Longrightarrow> \<bar>x\<bar> < 16384 \<Longrightarrow> rd x = of_int (rne (x * 549755813888)) / 549755813888"
  using rd_scale [of x 39] by simp

lemma rd_range_14:
  "16384 \<le> \<bar>x\<bar> \<Longrightarrow> \<bar>x\<bar> < 32768 \<Longrightarrow> rd x = of_int (rne (x * 274877906944)) / 274877906944"
  using rd_scale [of x 38] by simp

lemma rd_range_15:
  "32768 \<le> \<bar>x\<bar> \<Longrightarrow> \<bar>x\<bar> < 65536 \<Longrightarrow> rd x = of_int (rne (x * 137438953472)) / 137438953472"
  using rd_scale [of x 37] by simp

lemmas rd_ranges =
  rd_range_m12 rd_range_m11 rd_range_m10 rd_range_m9 rd_range_m8 rd_range_m7
  rd_range_m6 rd_range_m5 rd_range_m4 rd_range_m3 rd_range_m2 rd_range_m1
  rd_range_0 rd_range_1 rd_range_2 rd_range_3 rd_range_4 rd_range_5
  rd_range_6 rd_range_7 rd_range_8 rd_range_9 rd_range_10 rd_range_11
  rd_range_12 rd_range_13 rd_range_14 rd_range_15

section \<open>Resolving the parameters\<close>

lemma resolve_time:
  "time (fst (resolve e a w)) =
     (case o_time a of Some t \<Rightarrow> t | None \<Rightarrow> time (fst (resolve e (a\<lparr>o_time := None\<rparr>) w)))"
  by (simp add: resolve_def update_def Let_def split: prod.splits option.splits)

lemma simulate_zero_duration:
  "time d = 0 \<Longrightarrow> simulate e d w = Inl ZeroDivisionError"
  by (simp add: simulate_def int_truediv_def Let_def)

section \<open>A run in which nothing raises\<close>

lemma gravity_change_eq:
  "number_of_changes l \<noteq> 0 \<Longrightarrow>
   gravity_change l =
     Inr (rd (rd (og (defaults l) - final_gravity l) / rd (of_int (number_of_changes l))))"
  by (simp add: gravity_change_def float_truediv_def)

lemma file_write_quiet:
  "quiet e \<Longrightarrow>
   file_write e x w = (w\<lparr>log_file := log_file w @ [x], writes := Suc (writes w)\<rparr>, True)"
  by (simp add: quiet_def file_write_def)

lemma execute_curl_command_quiet:
  "quiet e \<Longrightarrow>
   execute_curl_command e w a c t g =
     w\<lparr>runs := Suc (runs w), curl_commands := curl_commands w @ [(a, c, t, g)]\<rparr>"
  by (simp add: quiet_def execute_curl_command_def)

lemma update_log_quiet:
  assumes "quiet e"
  shows "update_log e d w v t c g st og' True en =
      w\<lparr>log_file := log_file w @ [Simulation_Starting c g t (time d) (fg d) (finaltemp d)],
        writes := Suc (writes w)\<rparr>"
    and "update_log e d w v t c g st og' False True =
      w\<lparr>log_file := log_file w @ [Simulation_at_Start v st og' c, Simulation_Complete v t g c],
        writes := Suc (Suc (writes w))\<rparr>"
    and "update_log e d w v t c g st og' False False =
      w\<lparr>log_file := log_file w @ [Current_Reading t g c], writes := Suc (writes w)\<rparr>"
  by (simp_all add: update_log_def file_write_quiet [OF assms])

lemma tick_quiet:
  assumes "quiet e" "gravity_change l = Inr c"
  shows "tick e l s =
    Inr \<lparr>start_temp = advance l (start_temp s),
      current_temp_fahrenheit = to_fahrenheit (advance l (start_temp s)),
      gravity = lower l c (gravity s),
      io = (io s)\<lparr>log_file := log_file (io s) @
               [Current_Reading (to_fahrenheit (advance l (start_temp s))) (gravity s)
                  (color (defaults l))],
             writes := Suc (writes (io s)), runs := Suc (runs (io s)),
             curl_commands := curl_commands (io s) @
               [(ip (defaults l), color (defaults l),
                 to_fahrenheit (advance l (start_temp s)), gravity s)]\<rparr>\<rparr>"
  by (simp add: tick_def Let_def assms update_log_quiet execute_curl_command_quiet)

lemma simulation_loop_quiet:
  assumes "quiet e" "gravity_change l = Inr c"
  shows "\<exists>s'. simulation_loop e l k s = Inr s' \<and>
    log_file (io s') = log_file (io s) @ map (reading_line l) (trace l c k (start_temp s) (gravity s)) \<and>
    curl_commands (io s') =
      curl_commands (io s) @ map (command l) (trace l c k (start_temp s) (gravity s)) \<and>
    console (io s') = console (io s) \<and>
    current_temp_fahrenheit s' =
      (if trace l c k (start_temp s) (gravity s) = [] then current_temp_fahrenheit s
       else fst (last (trace l c k (start_temp s) (gravity s)))) \<and>
    gravity s' =
      (if trace l c k (start_temp s) (gravity s) = [] then gravity s
       else lower l c (snd (last (trace l c k (start_temp s) (gravity s)))))"
proof (induction k arbitrary: s)
  case 0
  show ?case
    by simp
next
  case (Suc k)
  show ?case
  proof (cases "target_reached l (start_temp s)")
    case True
    then show ?thesis
      by simp
  next
    case False
    obtain s1 where s1: "tick e l s = Inr s1"
      by (simp add: tick_quiet [OF assms])
    from Suc [of s1] obtain s' where "simulation_loop e l k s1 = Inr s'"
      and "log_file (io s') = log_file (io s1) @ map (reading_line l) (trace l c k (start_temp s1) (gravity s1))"
      and "curl_commands (io s') =
        curl_commands (io s1) @ map (command l) (trace l c k (start_temp s1) (gravity s1))"
      and "console (io s') = console (io s1)"
      and "current_temp_fahrenheit s' =
        (if trace l c k (start_temp s1) (gravity s1) = [] then current_temp_fahrenheit s1
         else fst (last (trace l c k (start_temp s1) (gravity s1))))"
      and "gravity s' =
        (if trace l c k (start_temp s1) (gravity s1) = [] then gravity s1
         else lower l c (snd (last (trace l c k (start_temp s1) (gravity s1)))))"
      by blast
    moreover have "s1 = \<lparr>start_temp = advance l (start_temp s),
      current_temp_fahrenheit = to_fahrenheit (advance l (start_temp s)),
      gravity = lower l c (gravity s),
      io = (io s)\<lparr>log_file := log_file (io s) @
               [Current_Reading (to_fahrenheit (advance l (start_temp s))) (gravity s)
                  (color (defaults l))],
             writes := Suc (writes (io s)), runs := Suc (runs (io s)),
             curl_commands := curl_commands (io s) @
               [(ip (defaults l), color (defaults l),
                 to_fahrenheit (advance l (start_temp s)), gravity s)]\<rparr>\<rparr>"
      using s1 by (simp add: tick_quiet [OF assms])
    ultimately show ?thesis
      using False s1 by (simp add: reading_line_def command_def)
  qed
qed


lemma simulate_nonzero:
  "time d \<noteq> 0 \<Longrightarrow>
   simulate e d w =
     (case simulation_loop e (the_locals d) (nat (time d * 60)) (begin_run e d w) of
        Inl err \<Rightarrow> Inl err
      | Inr s \<Rightarrow> Inr (end_run e d s))"
  by (simp add: simulate_def int_truediv_def Let_def the_locals_def locals_of_def)

lemma gravity_change_the_locals:
  "time d \<noteq> 0 \<Longrightarrow> gravity_change (the_locals d) = Inr (the_change d)"
  by (simp add: the_locals_def locals_of_def gravity_change_eq the_change_def)

lemma simulate_quiet:
  assumes "quiet e" "time d \<noteq> 0"
  shows "\<exists>w'. simulate e d w = Inr w' \<and>
    log_file w' =
      Simulation_Starting (color d) (max (og d) (fg d))
          (to_fahrenheit (of_int (to_milli_celsius (starttemp d)))) (time d) (fg d) (finaltemp d) #
        map (reading_line (the_locals d)) (run_trace d) @
        [Simulation_at_Start script_version (starttemp d) (og d) (color d),
         Simulation_Complete script_version (final_temp d) (final_grav d) (color d)] \<and>
    curl_commands w' =
      curl_commands w @ map (command (the_locals d)) (run_trace d) @
        [(ip d, color d, final_temp d, final_grav d)] \<and>
    console w' = console w @ [Fermentation_started, Fermentation_complete]"
proof -
  define l where "l = the_locals d"
  define s0 where "s0 = begin_run e d w"
  have gc: "gravity_change l = Inr (the_change d)"
    using assms(2) by (simp add: l_def gravity_change_the_locals)
  have s0: "start_temp s0 = of_int (to_milli_celsius (starttemp d))"
    "gravity s0 = max (og d) (fg d)"
    "current_temp_fahrenheit s0 = to_fahrenheit (of_int (to_milli_celsius (starttemp d)))"
    "log_file (io s0) = [Simulation_Starting (color d) (max (og d) (fg d))
       (to_fahrenheit (of_int (to_milli_celsius (starttemp d)))) (time d) (fg d) (finaltemp d)]"
    "curl_commands (io s0) = curl_commands w"
    "console (io s0) = console w @ [Fermentation_started]"
    by (simp_all add: s0_def begin_run_def Let_def update_log_quiet [OF assms(1)])
  have tr: "trace l (the_change d) (nat (time d * 60)) (start_temp s0) (gravity s0) = run_trace d"
    by (simp add: run_trace_def l_def s0)
  obtain s' where s': "simulation_loop e l (nat (time d * 60)) s0 = Inr s'"
    and lg: "log_file (io s') = log_file (io s0) @ map (reading_line l) (run_trace d)"
    and cc: "curl_commands (io s') = curl_commands (io s0) @ map (command l) (run_trace d)"
    and co: "console (io s') = console (io s0)"
    and ft: "current_temp_fahrenheit s' = final_temp d"
    and fg: "gravity s' = final_grav d"
    using simulation_loop_quiet [OF assms(1) gc, of "nat (time d * 60)" s0]
    unfolding tr by (auto simp: final_temp_def final_grav_def s0 l_def)
  have sim: "simulate e d w = Inr (end_run e d s')"
    using s' by (simp add: simulate_nonzero [OF assms(2)] l_def s0_def)
  show ?thesis
    unfolding sim using lg cc co
    by (simp add: end_run_def Let_def ft fg update_log_quiet [OF assms(1)]
        execute_curl_command_quiet [OF assms(1)] s0 l_def)
qed

lemma fast_forward_numeral:
  "fast_forward l (numeral k) n t =
     (if target_reached l t then (n, t) else fast_forward l (pred_numeral k) (n + 1) (advance l t))"
  by (simp add: numeral_eq_Suc)

lemma fast_forward_Suc_0:
  "fast_forward l (Suc 0) n t = (if target_reached l t then (n, t) else (n + 1, advance l t))"
  by simp

lemma trace_Nil_fast_forward:
  "trace l c k t g = [] \<Longrightarrow> fast_forward l k n t = (n, t)"
  by (cases k) (auto split: if_splits)

lemma length_trace_fast_forward:
  "fst (fast_forward l k n t) = n + length (trace l c k t g)"
proof (induction k arbitrary: n t g)
  case 0
  show ?case
    by simp
next
  case (Suc k)
  show ?case
    using Suc [of "n + 1" "advance l t" "lower l c g"] by simp
qed

lemma last_trace_fast_forward:
  "trace l c k t g \<noteq> [] \<Longrightarrow>
   fst (last (trace l c k t g)) = to_fahrenheit (snd (fast_forward l k n t))"
proof (induction k arbitrary: n t g)
  case 0
  then show ?case
    by simp
next
  case (Suc k)
  then have nr: "\<not> target_reached l t"
    by (auto split: if_splits)
  show ?case
  proof (cases "trace l c k (advance l t) (lower l c g) = []")
    case True
    then show ?thesis
      using nr trace_Nil_fast_forward [OF True, of "n + 1"] by simp
  next
    case False
    then show ?thesis
      using nr Suc.IH [OF False, of "n + 1"] by simp
  qed
qed

lemma readings_log:
  "List.map_filter reading (map (reading_line l) tr @ ys) = tr @ List.map_filter reading ys"
  by (induction tr) (auto simp: reading_line_def)

lemma resolve_no_config:
  "o_config a = None \<Longrightarrow> resolve e a w = (update a DEFAULTS, w)"
  by (simp add: resolve_def)

lemma quiet_calm: "quiet calm"
  by (simp add: quiet_def calm_def)


section \<open>A duration of zero minutes\<close>

text \<open>
  Claim C3 says that no syntactically valid parameter set, a duration of 0 minutes
  included, makes the program raise after the parameters are resolved. With
  \<^verbatim>\<open>--time 0\<close> the number of changes is 0 and
  \<^verbatim>\<open>temp_change_per_interval = total_temp_change / number_of_changes\<close> raises
  ZeroDivisionError, whatever the other arguments and the environment are: the run ends
  there, before the log file is opened.
\<close>

theorem main_zero_duration_raises:
  "main e (a\<lparr>o_time := Some 0\<rparr>) = Inl ZeroDivisionError"
proof -
  obtain d w where r: "resolve e (a\<lparr>o_time := Some 0\<rparr>) world0 = (d, w)"
    by (cases "resolve e (a\<lparr>o_time := Some 0\<rparr>) world0")
  have "time (fst (resolve e (a\<lparr>o_time := Some 0\<rparr>) world0)) = 0"
    by (subst resolve_time) simp
  then have "time d = 0"
    by (simp add: r)
  then show ?thesis
    by (simp add: main_def r simulate_zero_duration)
qed

section \<open>The temperature at the end of the loop\<close>

lemma change_up: "rd (625 / 6) = 7330077518506667 / 70368744177664"
  by (simp add: rd_ranges rne_numeral_frac)

lemma fast_forward_up:
  assumes "direction l = ''up''" "end_temp l = 6250" "temp_change_per_interval l = 7330077518506667 / 70368744177664"
  shows "fast_forward l 60 0 0 = (60, 1717986918400001 / 274877906944)"
  by (simp add: fast_forward_numeral fast_forward_Suc_0 target_reached_def advance_def assms
      rd_ranges rne_numeral_frac del: fast_forward.simps)

lemma to_fahrenheit_up: "to_fahrenheit (1717986918400001 / 274877906944) = 6086896371367937 / 140737488355328"
  by (simp add: to_fahrenheit_def rd_ranges rne_numeral_frac)

lemma to_milli_celsius_32: "to_milli_celsius 32 = 0"
  by (simp add: to_milli_celsius_def py_int_def)

lemma to_milli_celsius_up: "to_milli_celsius (173 / 4) = 6250"
  by (simp add: to_milli_celsius_def py_int_def rd_ranges rne_numeral_frac)


text \<open>
  Claim C2 says that the temperatures of the ticks are monotonic in the direction of the
  change and that none passes beyond the end temperature. The loop has no clamp on the
  temperature: it adds the rounded change until the test at the top of an iteration finds
  the target reached. From 32 to 43.25 degrees Fahrenheit in one minute the 60 additions
  of the rounded \<open>6250 / 60\<close> end on \<open>6250.000000000004\<close> milli-degrees Celsius, above the
  target \<open>6250\<close>; the 60th tick logs and sends a temperature above 43.25, printed as 43.3,
  where 43.25 itself prints as 43.2.
\<close>

theorem final_tick_overshoots:
  "\<exists>w. main calm up_args = Inr w \<and> length (readings w) = 60 \<and>
     fst (last (readings w)) = 6086896371367937 / 140737488355328 \<and>
     173 / 4 < fst (last (readings w)) \<and>
     printed_temp (fst (last (readings w))) = 433 / 10 \<and>
     printed_temp (173 / 4) = 432 / 10"
proof -
  define d where "d = update up_args DEFAULTS"
  have d: "starttemp d = 32" "finaltemp d = 173 / 4" "time d = 1"
    by (simp_all add: d_def update_def up_args_def no_args_def)
  have l: "direction (the_locals d) = ''up''" "end_temp (the_locals d) = 6250"
      "temp_change_per_interval (the_locals d) = 7330077518506667 / 70368744177664"
    by (simp_all add: the_locals_def locals_of_def d to_milli_celsius_32 to_milli_celsius_up
        determine_direction_def change_up)
  have tr: "run_trace d = trace (the_locals d) (the_change d) 60 0 (max (og d) (fg d))"
    by (simp add: run_trace_def d to_milli_celsius_32)
  have len: "length (run_trace d) = 60"
    using length_trace_fast_forward [of "the_locals d" 60 0 0 "the_change d" "max (og d) (fg d)"]
    by (simp add: tr fast_forward_up [OF l])
  then have ne: "run_trace d \<noteq> []"
    by auto
  have lst: "fst (last (run_trace d)) = 6086896371367937 / 140737488355328"
    using last_trace_fast_forward [of "the_locals d" "the_change d" 60 0 "max (og d) (fg d)" 0] ne
    by (simp add: tr fast_forward_up [OF l] to_fahrenheit_up)
  have "time d \<noteq> 0"
    by (simp add: d)
  from simulate_quiet [OF quiet_calm this, of world0]
  obtain w where w: "simulate calm d world0 = Inr w"
    and lg: "log_file w =
      Simulation_Starting (color d) (max (og d) (fg d))
          (to_fahrenheit (of_int (to_milli_celsius (starttemp d)))) (time d) (fg d) (finaltemp d) #
        map (reading_line (the_locals d)) (run_trace d) @
        [Simulation_at_Start script_version (starttemp d) (og d) (color d),
         Simulation_Complete script_version (final_temp d) (final_grav d) (color d)]"
    by blast
  have r: "readings w = run_trace d"
    by (simp add: readings_def lg readings_log)
  have "o_config up_args = None"
    by (simp add: up_args_def no_args_def)
  then have m: "main calm up_args = Inr w"
    by (simp add: main_def resolve_no_config w [unfolded d_def])
  show ?thesis
    by (intro exI [of _ w]) (simp add: m r len lst printed_temp_def format_f_def rne_numeral_frac)
qed

section \<open>The default parameters over one minute\<close>

lemma floor_numeral_frac:
  "\<lfloor>(numeral a / numeral b :: rat)\<rfloor> = numeral a div numeral b"
  using floor_divide_of_int_eq [of "numeral a" "numeral b", where ?'a = rat] by simp

lemma rd_1013: "rd (1013 / 10) = 7128353785197363 / 70368744177664"
  by (simp add: rd_ranges rne_numeral_frac)

lemma rd_553: "rd (553 / 10) = 3891391553024819 / 70368744177664"
  by (simp add: rd_ranges rne_numeral_frac)

lemma to_milli_celsius_1013: "to_milli_celsius (7128353785197363 / 70368744177664) = 38500"
  by (simp add: to_milli_celsius_def py_int_def rd_ranges rne_numeral_frac floor_numeral_frac)

lemma to_milli_celsius_553: "to_milli_celsius (3891391553024819 / 70368744177664) = 12944"
  by (simp add: to_milli_celsius_def py_int_def rd_ranges rne_numeral_frac floor_numeral_frac)

lemma change_down: "rd (- (6389 / 15)) = - (7493098442518255 / 17592186044416)"
  by (simp add: rd_ranges rne_minus rne_numeral_frac)


lemma fast_forward_down:
  assumes "direction l = ''down''" "end_temp l = 12944" "temp_change_per_interval l = - (7493098442518255 / 17592186044416)"
  shows "fast_forward l 60 0 38500 = (60, 7116039254966249 / 549755813888)"
  by (simp add: fast_forward_numeral fast_forward_Suc_0 target_reached_def advance_def assms
      rd_ranges rne_numeral_frac del: fast_forward.simps)






section \<open>Whatever raises\<close>

lemma update_log_cases:
  "update_log e d w v t c g st og' False False \<in>
     {w\<lparr>log_file := log_file w @ [Current_Reading t g c], writes := Suc (writes w)\<rparr>,
      w\<lparr>writes := Suc (writes w), console := console w @ [Error_updating_log]\<rparr>}"
  by (simp add: update_log_def file_write_def)

lemma execute_curl_command_cases:
  "execute_curl_command e w a c t g \<in>
     {w\<lparr>runs := Suc (runs w), curl_commands := curl_commands w @ [(a, c, t, g)]\<rparr>,
      w\<lparr>runs := Suc (runs w), console := console w @ [Error_executing_curl]\<rparr>}"
  by (simp add: execute_curl_command_def)

lemma tick_eq:
  assumes "gravity_change l = Inr c"
  shows "tick e l s =
    Inr \<lparr>start_temp = advance l (start_temp s),
      current_temp_fahrenheit = to_fahrenheit (advance l (start_temp s)),
      gravity = lower l c (gravity s),
      io = execute_curl_command e
        (update_log e (defaults l) (io s) script_version (to_fahrenheit (advance l (start_temp s)))
           (color (defaults l)) (gravity s) (start_temp_fahrenheit l) (og (defaults l)) False False)
        (ip (defaults l)) (color (defaults l)) (to_fahrenheit (advance l (start_temp s))) (gravity s)\<rparr>"
  by (simp add: tick_def Let_def assms)

lemma simulation_loop_returns:
  assumes "gravity_change l = Inr c"
  shows "\<exists>s'. simulation_loop e l k s = Inr s'"
proof (induction k arbitrary: s)
  case 0
  show ?case
    by simp
next
  case (Suc k)
  show ?case
    using Suc [of "projr (tick e l s)"] by (simp add: tick_eq [OF assms])
qed

lemma simulation_loop_invariant:
  assumes "simulation_loop e l k s = Inr s'" "P s"
    and "\<And>s s'. P s \<Longrightarrow> \<not> target_reached l (start_temp s) \<Longrightarrow> tick e l s = Inr s' \<Longrightarrow> P s'"
  shows "P s'"
  using assms(1,2)
proof (induction k arbitrary: s)
  case 0
  then show ?case
    by simp
next
  case (Suc k)
  show ?case
  proof (cases "target_reached l (start_temp s)")
    case True
    with Suc.prems show ?thesis
      by simp
  next
    case False
    with Suc.prems(1) obtain s1 where s1: "tick e l s = Inr s1" "simulation_loop e l k s1 = Inr s'"
      by (auto split: sum.splits)
    from assms(3) [OF Suc.prems(2) False s1(1)] have "P s1" .
    with s1(2) show ?thesis
      by (rule Suc.IH)
  qed
qed

lemma resolve_world:
  "log_file (snd (resolve e a w)) = log_file w"
  "curl_commands (snd (resolve e a w)) = curl_commands w"
  "writes (snd (resolve e a w)) = writes w"
  "runs (snd (resolve e a w)) = runs w"
  by (simp_all add: resolve_def read_config_file_def Let_def
      split: option.splits prod.splits yaml_file.splits)

lemma main_simulate:
  "main e a = simulate e (parameters e a) (snd (resolve e a world0))"
  by (simp add: main_def parameters_def split: prod.splits)

lemma map_filter_append:
  "List.map_filter f (xs @ ys) = List.map_filter f xs @ List.map_filter f ys"
  by (simp add: List.map_filter_def)

lemma lower_bounds:
  assumes "0 \<le> c" "final_gravity l \<le> g" "rd g = g" "rd (final_gravity l) = final_gravity l"
  shows "lower l c g \<le> g" "final_gravity l \<le> lower l c g" "rd (lower l c g) = lower l c g"
proof -
  have "rd (g - c) \<le> rd g"
    using assms(1) by (intro rd_mono) simp
  then show "lower l c g \<le> g"
    using assms(2,3) by (simp add: lower_def)
  show "final_gravity l \<le> lower l c g"
    by (simp add: lower_def)
  show "rd (lower l c g) = lower l c g"
    using assms(4) by (simp add: lower_def max_def)
qed

lemma tick_gravity_order:
  assumes "gravity_change l = Inr c" "0 \<le> c" "rd (final_gravity l) = final_gravity l"
    and "gravity_order e (final_gravity l) hi s" "tick e l s = Inr s'"
  shows "gravity_order e (final_gravity l) hi s'"
proof -
  define t where "t = to_fahrenheit (advance l (start_temp s))"
  define w1 where "w1 = update_log e (defaults l) (io s) script_version t
    (color (defaults l)) (gravity s) (start_temp_fahrenheit l) (og (defaults l)) False False"
  have s': "gravity s' = lower l c (gravity s)"
    "io s' = execute_curl_command e w1 (ip (defaults l)) (color (defaults l)) t (gravity s)"
    using assms(5) by (auto simp: tick_eq [OF assms(1)] w1_def t_def)
  have g: "final_gravity l \<le> gravity s" "rd (gravity s) = gravity s" "gravity s \<le> hi"
    using assms(4) by (simp_all add: gravity_order_def)
  note lb = lower_bounds [OF assms(2) g(1,2) assms(3)]
  have w1: "logged_gravities w1 = logged_gravities (io s) \<or>
      logged_gravities w1 = logged_gravities (io s) @ [gravity s]"
    "sent_gravities w1 = sent_gravities (io s)"
    using update_log_cases [of e "defaults l" "io s" script_version t "color (defaults l)" "gravity s"
        "start_temp_fahrenheit l" "og (defaults l)"]
    by (auto simp: w1_def [symmetric] logged_gravities_def sent_gravities_def map_filter_append
        List.map_filter_simps)
  have w2: "logged_gravities (io s') = logged_gravities w1"
    "sent_gravities (io s') = sent_gravities w1 \<or> sent_gravities (io s') = sent_gravities w1 @ [gravity s]"
    using execute_curl_command_cases [of e w1 "ip (defaults l)" "color (defaults l)" t "gravity s"]
    by (auto simp: s'(2) [symmetric] logged_gravities_def sent_gravities_def)
  have old: "sorted_wrt (\<ge>) (logged_gravities (io s))" "sorted_wrt (\<ge>) (sent_gravities (io s))"
    "\<forall>g \<in> set (logged_gravities (io s)) \<union> set (sent_gravities (io s)). gravity s \<le> g \<and> g \<le> hi"
    using assms(4) by (simp_all add: gravity_order_def)
  have "sorted_wrt (\<ge>) (logged_gravities (io s'))"
    using w1(1) old(1,3) by (auto simp: w2(1) sorted_wrt_append)
  moreover have "sorted_wrt (\<ge>) (sent_gravities (io s'))"
    using w2(2) old(2,3) by (auto simp: w1(2) sorted_wrt_append)
  moreover have "\<forall>x \<in> set (logged_gravities (io s')) \<union> set (sent_gravities (io s')).
      gravity s' \<le> x \<and> x \<le> hi"
    using w1 w2 old(3) lb(1) g(3) by (auto simp: s'(1)) force+
  ultimately show ?thesis
    using lb g(3) by (simp add: gravity_order_def s'(1))
qed

lemma the_change_nonneg:
  assumes "0 < time d"
  shows "0 \<le> the_change d"
proof -
  have "0 \<le> rd (og d - min (og d) (fg d))"
    by (intro rd_nonneg) simp
  moreover have "0 \<le> rd (of_int (time d * 60))"
    using assms by (intro rd_nonneg) simp
  ultimately have "0 \<le> rd (og d - min (og d) (fg d)) / rd (of_int (time d * 60))"
    by (rule divide_nonneg_nonneg)
  then show ?thesis
    unfolding the_change_def by (rule rd_nonneg)
qed

lemma begin_run_gravities:
  "gravity (begin_run e d w) = max (og d) (fg d)"
  "sent_gravities (io (begin_run e d w)) = sent_gravities w"
  "logged_gravities (io (begin_run e d w)) =
     (if write_raises e (writes w) then [] else [max (og d) (fg d)])"
  by (simp_all add: begin_run_def Let_def update_log_def file_write_def
      logged_gravities_def sent_gravities_def List.map_filter_simps)

lemma end_run_gravities:
  "logged_gravities (end_run e d s) = logged_gravities (io s) \<or>
   logged_gravities (end_run e d s) = logged_gravities (io s) @ [gravity s]"
  "sent_gravities (end_run e d s) = sent_gravities (io s) \<or>
   sent_gravities (end_run e d s) = sent_gravities (io s) @ [gravity s]"
  by (auto simp: end_run_def Let_def update_log_def file_write_def execute_curl_command_def
      logged_gravities_def sent_gravities_def List.map_filter_simps map_filter_append)

lemma tick_logged_prefix:
  assumes "gravity_change l = Inr c" "tick e l s = Inr s'"
  shows "\<exists>xs. logged_gravities (io s') = logged_gravities (io s) @ xs"
proof -
  define t where "t = to_fahrenheit (advance l (start_temp s))"
  define w1 where "w1 = update_log e (defaults l) (io s) script_version t
    (color (defaults l)) (gravity s) (start_temp_fahrenheit l) (og (defaults l)) False False"
  have s': "io s' = execute_curl_command e w1 (ip (defaults l)) (color (defaults l)) t (gravity s)"
    using assms(2) by (auto simp: tick_eq [OF assms(1)] w1_def t_def)
  have "logged_gravities w1 = logged_gravities (io s) \<or>
      logged_gravities w1 = logged_gravities (io s) @ [gravity s]"
    using update_log_cases [of e "defaults l" "io s" script_version t "color (defaults l)" "gravity s"
        "start_temp_fahrenheit l" "og (defaults l)"]
    by (auto simp: w1_def [symmetric] logged_gravities_def map_filter_append List.map_filter_simps)
  moreover have "logged_gravities (io s') = logged_gravities w1"
    using execute_curl_command_cases [of e w1 "ip (defaults l)" "color (defaults l)" t "gravity s"]
    by (auto simp: s' [symmetric] logged_gravities_def)
  ultimately show ?thesis
    by auto
qed


lemma parameters_no_config:
  "o_config a = None \<Longrightarrow> parameters e a = update a DEFAULTS"
  by (simp add: parameters_def resolve_no_config)

section \<open>The gravity over a run\<close>

text \<open>
  Claim C5: for every OG and FG the gravities a run emits start at the higher of the
  two, do not increase from one emission to the next and are never below the lower of
  the two. This holds for the gravities in the log file and for those in the curl
  commands, whichever writes and commands fail; when the first write does not fail the
  first logged gravity is the higher of OG and FG. The line that restates the start of
  the run before the completion line reports OG as the starting gravity and is not a
  reading of the current gravity.
\<close>

theorem gravity_never_rises:
  assumes "is_double (og (parameters e a))" "is_double (fg (parameters e a))"
    and "time (parameters e a) \<noteq> 0"
  shows "\<exists>w. main e a = Inr w \<and>
    sorted_wrt (\<ge>) (logged_gravities w) \<and> sorted_wrt (\<ge>) (sent_gravities w) \<and>
    (\<forall>g \<in> set (logged_gravities w) \<union> set (sent_gravities w).
       min (og (parameters e a)) (fg (parameters e a)) \<le> g \<and>
       g \<le> max (og (parameters e a)) (fg (parameters e a))) \<and>
    (write_raises e 0 \<or> hd (logged_gravities w) = max (og (parameters e a)) (fg (parameters e a)))"
proof -
  define d where "d = parameters e a"
  define w0 where "w0 = snd (resolve e a world0)"
  define l where "l = the_locals d"
  define lo where "lo = min (og d) (fg d)"
  define hi where "hi = max (og d) (fg d)"
  define s0 where "s0 = begin_run e d w0"
  define k where "k = nat (time d * 60)"
  have t: "time d \<noteq> 0"
    using assms(3) by (simp add: d_def)
  have gc: "gravity_change l = Inr (the_change d)"
    using t by (simp add: l_def gravity_change_the_locals)
  obtain s' where s': "simulation_loop e l k s0 = Inr s'"
    using simulation_loop_returns [OF gc] by blast
  have m: "main e a = Inr (end_run e d s')"
    using s' by (simp add: main_simulate simulate_nonzero [OF t] d_def [symmetric] w0_def [symmetric]
        l_def [symmetric] s0_def [symmetric] k_def [symmetric])
  have fl: "final_gravity l = lo"
    by (simp add: l_def the_locals_def locals_of_def lo_def)
  have dbl: "rd lo = lo" "rd hi = hi"
    using assms(1,2) by (auto simp: is_double_def lo_def hi_def d_def min_def max_def)
  have w0: "writes w0 = 0" "sent_gravities w0 = []"
    by (simp_all add: w0_def resolve_world sent_gravities_def world0_def)
  have init: "gravity_order e lo hi s0"
    using dbl
    by (auto simp: gravity_order_def s0_def begin_run_gravities w0 lo_def hi_def)
  have inv: "gravity_order e lo hi s'"
  proof (cases "0 < time d")
    case True
    then have c: "0 \<le> the_change d"
      by (rule the_change_nonneg)
    show ?thesis
      using s' init
    proof (rule simulation_loop_invariant)
      fix s s'
      assume a: "gravity_order e lo hi s" "tick e l s = Inr s'"
      have "gravity_order e (final_gravity l) hi s'"
        by (rule tick_gravity_order [OF gc c]) (use a dbl(1) in \<open>simp_all add: fl\<close>)
      then show "gravity_order e lo hi s'"
        by (simp add: fl)
    qed
  next
    case False
    then have "k = 0"
      by (simp add: k_def)
    with s' init show ?thesis
      by simp
  qed
  have pre: "\<exists>xs. logged_gravities (io s') = logged_gravities (io s0) @ xs"
    using s'
  proof (rule simulation_loop_invariant)
    show "\<exists>xs. logged_gravities (io s0) = logged_gravities (io s0) @ xs"
      by simp
  next
    fix s s'
    assume "\<exists>xs. logged_gravities (io s) = logged_gravities (io s0) @ xs" "tick e l s = Inr s'"
    then show "\<exists>xs. logged_gravities (io s') = logged_gravities (io s0) @ xs"
      using tick_logged_prefix [OF gc, of e s s'] by auto
  qed
  have old: "sorted_wrt (\<ge>) (logged_gravities (io s'))" "sorted_wrt (\<ge>) (sent_gravities (io s'))"
    "\<forall>g \<in> set (logged_gravities (io s')) \<union> set (sent_gravities (io s')). gravity s' \<le> g \<and> g \<le> hi"
    "lo \<le> gravity s'" "gravity s' \<le> hi"
    using inv by (simp_all add: gravity_order_def)
  have 1: "sorted_wrt (\<ge>) (logged_gravities (end_run e d s'))"
    using end_run_gravities(1) [of e d s'] old(1,3) by (auto simp: sorted_wrt_append)
  have 2: "sorted_wrt (\<ge>) (sent_gravities (end_run e d s'))"
    using end_run_gravities(2) [of e d s'] old(2,3) by (auto simp: sorted_wrt_append)
  have 3: "\<forall>g \<in> set (logged_gravities (end_run e d s')) \<union> set (sent_gravities (end_run e d s')).
      lo \<le> g \<and> g \<le> hi"
    using end_run_gravities [of e d s'] old(3,4,5) by (auto; force)
  have 4: "write_raises e 0 \<or> hd (logged_gravities (end_run e d s')) = hi"
  proof (cases "write_raises e 0")
    case True
    then show ?thesis
      by simp
  next
    case False
    then have "logged_gravities (io s0) = [hi]"
      by (simp add: s0_def begin_run_gravities w0 hi_def)
    with pre obtain xs where "logged_gravities (io s') = hi # xs"
      by auto
    then show ?thesis
      using end_run_gravities(1) [of e d s'] by auto
  qed
  show ?thesis
    using 1 2 3 4 by (intro exI [of _ "end_run e d s'"]) (simp add: m d_def lo_def hi_def)
qed


theorem gravity_never_rises_witness:
  "is_double (og (parameters calm minute_args)) \<and> is_double (fg (parameters calm minute_args)) \<and>
   time (parameters calm minute_args) \<noteq> 0 \<and>
   (\<exists>w. main calm minute_args = Inr w \<and>
      sorted_wrt (\<ge>) (logged_gravities w) \<and> sorted_wrt (\<ge>) (sent_gravities w) \<and>
      (\<forall>g \<in> set (logged_gravities w) \<union> set (sent_gravities w).
         min (og (parameters calm minute_args)) (fg (parameters calm minute_args)) \<le> g \<and>
         g \<le> max (og (parameters calm minute_args)) (fg (parameters calm minute_args))) \<and>
      hd (logged_gravities w) =
        max (og (parameters calm minute_args)) (fg (parameters calm minute_args)))"
proof -
  have p: "parameters calm minute_args = update minute_args DEFAULTS"
    by (rule parameters_no_config) (simp add: minute_args_def no_args_def)
  have h1: "is_double (og (parameters calm minute_args))"
    and h2: "is_double (fg (parameters calm minute_args))"
    and h3: "time (parameters calm minute_args) \<noteq> 0"
    unfolding p by (simp_all add: update_def minute_args_def no_args_def DEFAULTS_def is_double_def)
  have "\<not> write_raises calm 0"
    by (simp add: calm_def)
  with gravity_never_rises [OF h1 h2 h3] h1 h2 h3 show ?thesis
    by simp
qed

section \<open>A run in which anything may raise\<close>

lemma tick_io:
  assumes "gravity_change l = Inr c" "tick e l s = Inr s'"
  shows "start_temp s' = advance l (start_temp s)"
    and "current_temp_fahrenheit s' = to_fahrenheit (advance l (start_temp s))"
    and "gravity s' = lower l c (gravity s)"
    and "runs (io s') = Suc (runs (io s))"
    and "writes (io s') = Suc (writes (io s))"
    and "\<exists>xs. log_file (io s') = log_file (io s) @ xs \<and>
           subseq xs [reading_line l (to_fahrenheit (advance l (start_temp s)), gravity s)]"
    and "\<exists>ys. curl_commands (io s') = curl_commands (io s) @ ys \<and>
           subseq ys [command l (to_fahrenheit (advance l (start_temp s)), gravity s)]"
    and "\<exists>zs. console (io s') = console (io s) @ zs \<and>
           set zs \<subseteq> {Error_updating_log, Error_executing_curl}"
  using assms(2) unfolding tick_eq [OF assms(1)]
  by (auto simp: update_log_def file_write_def execute_curl_command_def reading_line_def
      command_def)

lemma simulation_loop_any:
  assumes "gravity_change l = Inr c"
  shows "\<exists>s' xs ys zs. simulation_loop e l k s = Inr s' \<and>
    log_file (io s') = log_file (io s) @ xs \<and>
    subseq xs (map (reading_line l) (trace l c k (start_temp s) (gravity s))) \<and>
    curl_commands (io s') = curl_commands (io s) @ ys \<and>
    subseq ys (map (command l) (trace l c k (start_temp s) (gravity s))) \<and>
    console (io s') = console (io s) @ zs \<and>
    set zs \<subseteq> {Error_updating_log, Error_executing_curl} \<and>
    runs (io s') = runs (io s) + length (trace l c k (start_temp s) (gravity s)) \<and>
    writes (io s') = writes (io s) + length (trace l c k (start_temp s) (gravity s)) \<and>
    current_temp_fahrenheit s' =
      (if trace l c k (start_temp s) (gravity s) = [] then current_temp_fahrenheit s
       else fst (last (trace l c k (start_temp s) (gravity s)))) \<and>
    gravity s' =
      (if trace l c k (start_temp s) (gravity s) = [] then gravity s
       else lower l c (snd (last (trace l c k (start_temp s) (gravity s)))))"
proof (induction k arbitrary: s)
  case 0
  show ?case
    by simp
next
  case (Suc k)
  show ?case
  proof (cases "target_reached l (start_temp s)")
    case True
    then show ?thesis
      by simp
  next
    case False
    obtain s1 where s1: "tick e l s = Inr s1"
      by (simp add: tick_eq [OF assms])
    note t = tick_io [OF assms s1]
    define x where "x = (to_fahrenheit (advance l (start_temp s)), gravity s)"
    define tr where "tr = trace l c k (advance l (start_temp s)) (lower l c (gravity s))"
    have tr': "trace l c (Suc k) (start_temp s) (gravity s) = x # tr"
      using False by (simp add: x_def tr_def)
    from t(6) obtain xs1 where xs1: "log_file (io s1) = log_file (io s) @ xs1" "subseq xs1 [reading_line l x]"
      by (auto simp: x_def)
    from t(7) obtain ys1 where ys1: "curl_commands (io s1) = curl_commands (io s) @ ys1" "subseq ys1 [command l x]"
      by (auto simp: x_def)
    from t(8) obtain zs1 where zs1: "console (io s1) = console (io s) @ zs1"
      "set zs1 \<subseteq> {Error_updating_log, Error_executing_curl}"
      by auto
    from Suc [of s1] obtain s' xs ys zs where s': "simulation_loop e l k s1 = Inr s'"
      and xs: "log_file (io s') = log_file (io s1) @ xs" "subseq xs (map (reading_line l) tr)"
      and ys: "curl_commands (io s') = curl_commands (io s1) @ ys" "subseq ys (map (command l) tr)"
      and zs: "console (io s') = console (io s1) @ zs" "set zs \<subseteq> {Error_updating_log, Error_executing_curl}"
      and rw: "runs (io s') = runs (io s1) + length tr" "writes (io s') = writes (io s1) + length tr"
      and ft: "current_temp_fahrenheit s' = (if tr = [] then current_temp_fahrenheit s1 else fst (last tr))"
      and fg: "gravity s' = (if tr = [] then gravity s1 else lower l c (snd (last tr)))"
      unfolding tr_def t(1,3) by blast
    have "subseq (xs1 @ xs) ([reading_line l x] @ map (reading_line l) tr)"
      using xs1(2) xs(2) by (rule list_emb_append_mono)
    moreover have "subseq (ys1 @ ys) ([command l x] @ map (command l) tr)"
      using ys1(2) ys(2) by (rule list_emb_append_mono)
    moreover have "simulation_loop e l (Suc k) s = Inr s'"
      using False s1 s' by simp
    moreover have "set (zs1 @ zs) \<subseteq> {Error_updating_log, Error_executing_curl}"
      using zs1(2) zs(2) by simp
    ultimately show ?thesis
      unfolding tr'
      by (intro exI [of _ s'] exI [of _ "xs1 @ xs"] exI [of _ "ys1 @ ys"] exI [of _ "zs1 @ zs"])
        (simp add: xs(1) xs1(1) ys(1) ys1(1) zs(1) zs1(1) rw t(4,5) ft fg t(2,3) x_def)
  qed
qed




lemma begin_run_io:
  "start_temp (begin_run e d w) = of_int (to_milli_celsius (starttemp d))"
  "gravity (begin_run e d w) = max (og d) (fg d)"
  "current_temp_fahrenheit (begin_run e d w) = to_fahrenheit (of_int (to_milli_celsius (starttemp d)))"
  "curl_commands (io (begin_run e d w)) = curl_commands w"
  "runs (io (begin_run e d w)) = runs w"
  "subseq (log_file (io (begin_run e d w)))
     [Simulation_Starting (color d) (max (og d) (fg d))
        (to_fahrenheit (of_int (to_milli_celsius (starttemp d)))) (time d) (fg d) (finaltemp d)]"
  "\<exists>zs. console (io (begin_run e d w)) = console w @ Fermentation_started # zs \<and>
     set zs \<subseteq> {Error_updating_log, Error_executing_curl}"
  by (simp_all add: begin_run_def Let_def update_log_def file_write_def)





section \<open>How much a run emits\<close>




section \<open>Failures of the log, of curl and of the configuration file\<close>



section \<open>The lines of the log file\<close>

lemma simulation_loop_reached:
  "target_reached l (start_temp s) \<Longrightarrow> simulation_loop e l k s = Inr s"
  by (cases k) simp_all

lemma simulation_loop_log:
  assumes "\<forall>k. \<not> write_raises e k" "gravity_change l = Inr c"
    and "simulation_loop e l k s = Inr s'"
  shows "log_file (io s') =
    log_file (io s) @ map (reading_line l) (trace l c k (start_temp s) (gravity s))"
  using assms(3)
proof (induction k arbitrary: s)
  case 0
  then show ?case
    by simp
next
  case (Suc k)
  show ?case
  proof (cases "target_reached l (start_temp s)")
    case True
    with Suc.prems show ?thesis
      by simp
  next
    case False
    with Suc.prems obtain s1 where s1: "tick e l s = Inr s1" "simulation_loop e l k s1 = Inr s'"
      by (auto split: sum.splits)
    have "log_file (io s1) =
        log_file (io s) @ [reading_line l (to_fahrenheit (advance l (start_temp s)), gravity s)]"
      using s1(1) assms(1) unfolding tick_eq [OF assms(2)]
      by (auto simp: update_log_def file_write_def execute_curl_command_def reading_line_def)
    then show ?thesis
      using Suc.IH [OF s1(2)] False tick_io(1,3) [OF assms(2) s1(1)] by simp
  qed
qed


text \<open>
  Claim C6 says that the log file of every run holds exactly one start line, first, and
  exactly one complete line, last, with no other start or complete line between them.
  A write that raises is caught and the run goes on, so a line can be missing: when the
  first write raises, the log of a run from 32 to 32 degrees holds the two closing lines
  and no start line.
\<close>

theorem start_line_lost:
  "\<exists>w T G. main first_write_fails still_args = Inr w \<and>
     log_file w =
       [Simulation_at_Start script_version 32 (og DEFAULTS) ''yellow*hd'',
        Simulation_Complete script_version T G ''yellow*hd'']"
proof -
  define d where "d = update still_args DEFAULTS"
  have p: "parameters first_write_fails still_args = d"
    unfolding d_def by (rule parameters_no_config) (simp add: still_args_def no_args_def)
  have d: "starttemp d = 32" "finaltemp d = 32" "time d = 1" "og d = og DEFAULTS"
      "color d = ''yellow*hd''"
    by (simp_all add: d_def update_def still_args_def no_args_def DEFAULTS_def)
  define w0 where "w0 = snd (resolve first_write_fails still_args world0)"
  have w0: "writes w0 = 0" "runs w0 = 0"
    by (simp_all add: w0_def resolve_world world0_def)
  define s0 where "s0 = begin_run first_write_fails d w0"
  have s0: "start_temp s0 = 0" "log_file (io s0) = []" "writes (io s0) = 1" "runs (io s0) = 0"
    by (simp_all add: s0_def begin_run_def Let_def d to_milli_celsius_32 update_log_def
        file_write_def first_write_fails_def w0)
  have "target_reached (the_locals d) (start_temp s0)"
    by (simp add: target_reached_def the_locals_def locals_of_def d to_milli_celsius_32
        determine_direction_def s0)
  then have "simulation_loop first_write_fails (the_locals d) (nat (time d * 60)) s0 = Inr s0"
    by (rule simulation_loop_reached)
  then have m: "main first_write_fails still_args = Inr (end_run first_write_fails d s0)"
    by (simp add: main_simulate p simulate_nonzero d w0_def s0_def)
  have "log_file (end_run first_write_fails d s0) =
      [Simulation_at_Start script_version 32 (og DEFAULTS) ''yellow*hd'',
       Simulation_Complete script_version (current_temp_fahrenheit s0) (gravity s0) ''yellow*hd'']"
    by (simp add: end_run_def Let_def execute_curl_command_def update_log_def file_write_def
        first_write_fails_def s0 d)
  with m show ?thesis
    by blast
qed


text \<open>
  When no write to the log raises and the duration is not 0, the log file is the
  \<open>Simulation Starting\<close> line, one line per tick, the \<open>Simulation at Start\<close> line that
  restates the starting temperature and OG, and the \<open>Simulation Complete\<close> line, in
  this order (claim C6 as amended).
\<close>

theorem log_file_shape:
  assumes "\<forall>k. \<not> write_raises e k" "time (parameters e a) \<noteq> 0"
  shows "\<exists>w. main e a = Inr w \<and>
    log_file w =
      Simulation_Starting (color (parameters e a))
          (max (og (parameters e a)) (fg (parameters e a)))
          (to_fahrenheit (of_int (to_milli_celsius (starttemp (parameters e a)))))
          (time (parameters e a)) (fg (parameters e a)) (finaltemp (parameters e a)) #
        map (reading_line (the_locals (parameters e a))) (run_trace (parameters e a)) @
        [Simulation_at_Start script_version (starttemp (parameters e a)) (og (parameters e a))
           (color (parameters e a)),
         Simulation_Complete script_version (final_temp (parameters e a))
           (final_grav (parameters e a)) (color (parameters e a))]"
proof -
  define d where "d = parameters e a"
  define w0 where "w0 = snd (resolve e a world0)"
  define s0 where "s0 = begin_run e d w0"
  have t: "time d \<noteq> 0"
    using assms(2) by (simp add: d_def)
  have gc: "gravity_change (the_locals d) = Inr (the_change d)"
    using t by (rule gravity_change_the_locals)
  have tr: "trace (the_locals d) (the_change d) (nat (time d * 60)) (start_temp s0) (gravity s0) =
      run_trace d"
    by (simp add: run_trace_def s0_def begin_run_io)
  from simulation_loop_any [OF gc, of e "nat (time d * 60)" s0]
  obtain s' where s': "simulation_loop e (the_locals d) (nat (time d * 60)) s0 = Inr s'"
    and ft: "current_temp_fahrenheit s' = final_temp d"
    and fg: "gravity s' = final_grav d"
    unfolding tr by (auto simp: final_temp_def final_grav_def s0_def begin_run_io)
  have lg: "log_file (io s') = log_file (io s0) @ map (reading_line (the_locals d)) (run_trace d)"
    using simulation_loop_log [OF assms(1) gc s'] by (simp add: tr)
  have l0: "log_file (io s0) =
      [Simulation_Starting (color d) (max (og d) (fg d))
         (to_fahrenheit (of_int (to_milli_celsius (starttemp d)))) (time d) (fg d) (finaltemp d)]"
    using assms(1) by (simp add: s0_def begin_run_def Let_def update_log_def file_write_def)
  have m: "main e a = Inr (end_run e d s')"
    using s' by (simp add: main_simulate simulate_nonzero [OF t] d_def [symmetric] w0_def s0_def)
  have "log_file (end_run e d s') =
      log_file (io s') @
        [Simulation_at_Start script_version (starttemp d) (og d) (color d),
         Simulation_Complete script_version (final_temp d) (final_grav d) (color d)]"
    using assms(1)
    by (simp add: end_run_def Let_def execute_curl_command_def update_log_def file_write_def ft fg)
  then show ?thesis
    using m by (simp add: lg l0 d_def)
qed

theorem log_file_shape_witness:
  "(\<forall>k. \<not> write_raises calm k) \<and> time (parameters calm minute_args) \<noteq> 0 \<and>
   (\<exists>w. main calm minute_args = Inr w \<and>
      log_file w =
        Simulation_Starting (color (parameters calm minute_args))
          (max (og (parameters calm minute_args)) (fg (parameters calm minute_args)))
          (to_fahrenheit (of_int (to_milli_celsius (starttemp (parameters calm minute_args)))))
          (time (parameters calm minute_args)) (fg (parameters calm minute_args))
          (finaltemp (parameters calm minute_args)) #
        map (reading_line (the_locals (parameters calm minute_args)))
          (run_trace (parameters calm minute_args)) @
        [Simulation_at_Start script_version (starttemp (parameters calm minute_args))
           (og (parameters calm minute_args)) (color (parameters calm minute_args)),
         Simulation_Complete script_version (final_temp (parameters calm minute_args))
           (final_grav (parameters calm minute_args)) (color (parameters calm minute_args))])"
proof -
  have p: "parameters calm minute_args = update minute_args DEFAULTS"
    by (rule parameters_no_config) (simp add: minute_args_def no_args_def)
  have h1: "\<forall>k. \<not> write_raises calm k"
    by (simp add: calm_def)
  have h2: "time (parameters calm minute_args) \<noteq> 0"
    unfolding p by (simp add: update_def minute_args_def no_args_def)
  from log_file_shape [OF h1 h2] h1 h2 show ?thesis
    by blast
qed

section \<open>What each tick emits\<close>

lemma trace_iterates:
  "trace l c k t g =
     map (\<lambda>i. (to_fahrenheit ((advance l ^^ Suc i) t), (lower l c ^^ i) g))
       [0..<length (trace l c k t g)]"
proof (induction k arbitrary: t g)
  case 0
  show ?case
    by simp
next
  case (Suc k)
  show ?case
  proof (cases "target_reached l t")
    case True
    then show ?thesis
      by simp
  next
    case False
    define tr where "tr = trace l c k (advance l t) (lower l c g)"
    have tr: "tr = map (\<lambda>i. (to_fahrenheit ((advance l ^^ Suc i) (advance l t)),
        (lower l c ^^ i) (lower l c g))) [0..<length tr]"
      unfolding tr_def by (rule Suc.IH)
    have up: "[0..<Suc (length tr)] = 0 # map Suc [0..<length tr]"
      by (simp add: upt_conv_Cons map_Suc_upt del: upt_Suc)
    have "map (\<lambda>i. (to_fahrenheit ((advance l ^^ Suc i) t), (lower l c ^^ i) g))
        [0..<Suc (length tr)] =
      (to_fahrenheit (advance l t), g) #
        map (\<lambda>i. (to_fahrenheit ((advance l ^^ Suc i) (advance l t)),
          (lower l c ^^ i) (lower l c g))) [0..<length tr]"
      unfolding up by (simp add: funpow_swap1 comp_def del: upt_Suc)
    also have "\<dots> = (to_fahrenheit (advance l t), g) # tr"
      using tr by simp
    finally show ?thesis
      using False by (simp add: tr_def del: upt_Suc)
  qed
qed












section \<open>The gravity change per tick\<close>

lemma gravity_change_when_og_higher:
  assumes "fg d \<le> og d" "time d \<noteq> 0"
  shows "gravity_change (the_locals d) =
    Inr (rd (rd (max (og d) (fg d) - min (og d) (fg d)) / rd (of_int (time d * 60))))"
  using assms by (simp add: gravity_change_the_locals the_change_def max_def min_def)

lemma trace_gravity_const:
  "lower l c g = g \<Longrightarrow> map snd (trace l c k t g) = replicate (length (trace l c k t g)) g"
  by (induction k arbitrary: t) simp_all

lemma last_trace_gravity_const:
  assumes "lower l c g = g" "trace l c k t g \<noteq> []"
  shows "snd (last (trace l c k t g)) = g"
proof -
  have "snd (last (trace l c k t g)) = last (map snd (trace l c k t g))"
    using assms(2) by (simp add: last_map)
  also have "\<dots> = last (replicate (length (trace l c k t g)) g)"
    by (simp only: trace_gravity_const [OF assms(1)])
  also have "\<dots> = g"
    using assms(2) by simp
  finally show ?thesis .
qed


text \<open>
  Claim C1 says that the gravity change per tick is the start gravity minus the end
  gravity, divided by the number of steps, where the start gravity is the higher of OG
  and FG and the end gravity the lower, so that the gravity moves from the higher to the
  lower whichever was labelled OG. The loop starts from the higher value and aims at the
  lower one, but it computes the change from \<^verbatim>\<open>DEFAULTS['og']\<close> and not from the start
  gravity. With OG 1.0 and FG 1.5 the change is 0 where the claim gives a positive one:
  all 60 ticks emit 1.5 and the completion line reports 1.5, the run never moves towards
  1.0.
\<close>

theorem swapped_labels_gravity_stays:
  "\<exists>w T. main calm swapped_args = Inr w \<and>
     gravity_change (the_locals (parameters calm swapped_args)) = Inr 0 \<and>
     0 < rd (rd (max 1 (3 / 2) - min 1 (3 / 2)) / rd (of_int (1 * 60))) \<and>
     length (readings w) = 60 \<and> map snd (readings w) = replicate 60 (3 / 2) \<and>
     last (log_file w) = Simulation_Complete script_version T (3 / 2) ''yellow*hd''"
proof -
  define d where "d = parameters calm swapped_args"
  have p: "d = update swapped_args DEFAULTS"
    unfolding d_def by (rule parameters_no_config) (simp add: swapped_args_def no_args_def)
  have d: "starttemp d = 7128353785197363 / 70368744177664"
      "finaltemp d = 3891391553024819 / 70368744177664" "time d = 1"
      "og d = 1" "fg d = 3 / 2" "color d = ''yellow*hd''"
    unfolding p
    by (simp_all add: update_def swapped_args_def no_args_def DEFAULTS_def rd_1013 rd_553)
  have l: "direction (the_locals d) = ''down''" "end_temp (the_locals d) = 12944"
      "temp_change_per_interval (the_locals d) = - (7493098442518255 / 17592186044416)"
    by (simp_all add: the_locals_def locals_of_def d to_milli_celsius_1013 to_milli_celsius_553
        determine_direction_def change_down)
  have fin: "final_gravity (the_locals d) = 1"
    by (simp add: the_locals_def locals_of_def d)
  have c: "the_change d = 0"
    by (simp add: the_change_def d)
  have gc: "gravity_change (the_locals d) = Inr 0"
    using gravity_change_the_locals [of d] by (simp add: d c)
  have low: "lower (the_locals d) 0 (3 / 2) = 3 / 2"
    by (simp add: lower_def fin rd_ranges)
  have tr: "run_trace d = trace (the_locals d) 0 60 38500 (3 / 2)"
    by (simp add: run_trace_def d c to_milli_celsius_1013)
  have len: "length (run_trace d) = 60"
    using length_trace_fast_forward [of "the_locals d" 60 0 38500 0 "3 / 2"]
    by (simp add: tr fast_forward_down [OF l])
  then have ne: "run_trace d \<noteq> []"
    by auto
  have gs: "map snd (run_trace d) = replicate 60 (3 / 2)"
    using trace_gravity_const [OF low, of 60 38500] len by (simp add: tr)
  have sl: "snd (last (run_trace d)) = 3 / 2"
    using last_trace_gravity_const [OF low ne [unfolded tr]] by (simp only: tr)
  have fg: "final_grav d = 3 / 2"
    by (simp only: final_grav_def ne if_False c sl low)
  have "time d \<noteq> 0"
    by (simp add: d)
  from simulate_quiet [OF quiet_calm this, of "snd (resolve calm swapped_args world0)"]
  obtain w where w: "main calm swapped_args = Inr w"
    and lg: "log_file w =
      Simulation_Starting (color d) (max (og d) (fg d))
          (to_fahrenheit (of_int (to_milli_celsius (starttemp d)))) (time d) (fg d) (finaltemp d) #
        map (reading_line (the_locals d)) (run_trace d) @
        [Simulation_at_Start script_version (starttemp d) (og d) (color d),
         Simulation_Complete script_version (final_temp d) (final_grav d) (color d)]"
    by (auto simp: main_simulate d_def)
  have r: "readings w = run_trace d"
    by (simp add: readings_def lg readings_log)
  have pos: "0 < rd (rd (1 / 2) / rd 60)"
    by (simp add: rd_ranges rne_numeral_frac)
  show ?thesis
    unfolding d_def [symmetric]
    by (intro exI [of _ w] exI [of _ "final_temp d"]) (simp add: w gc pos r len gs lg fg d)
qed


section \<open>What a run depends on\<close>

lemma file_write_random [simp]:
  "file_write (e\<lparr>random := r, files := f\<rparr>) = file_write e"
  by (intro ext) (simp add: file_write_def)

lemma update_log_random [simp]:
  "update_log (e\<lparr>random := r, files := f\<rparr>) = update_log e"
  by (intro ext) (simp add: update_log_def)

lemma execute_curl_command_random [simp]:
  "execute_curl_command (e\<lparr>random := r, files := f\<rparr>) = execute_curl_command e"
  by (intro ext) (simp add: execute_curl_command_def)

lemma tick_random [simp]:
  "tick (e\<lparr>random := r, files := f\<rparr>) = tick e"
  by (intro ext) (simp add: tick_def)

lemma simulation_loop_random [simp]:
  "simulation_loop (e\<lparr>random := r, files := f\<rparr>) l k s = simulation_loop e l k s"
  by (induction k arbitrary: s) (simp_all split: sum.splits)

lemma simulate_random:
  "simulate (e\<lparr>random := r, files := f\<rparr>) d w = simulate e d w"
  by (simp add: simulate_def begin_run_def end_run_def Let_def split: sum.splits)


text \<open>
  Claim C10: for fixed parameters what a run emits is a function of the parameters, and
  the random temperature increment defined in the program is not used on any tick. The
  result of \<open>main\<close> is the same whatever numbers the random source would return, and the
  simulation on resolved parameters depends on nothing in the environment but on which
  writes and which subprocess calls raise.
\<close>

theorem random_never_drawn:
  "main (e\<lparr>random := r\<rparr>) a = main e a \<and>
   simulate (e\<lparr>random := r, files := f\<rparr>) d w = simulate e d w"
proof
  have "resolve (e\<lparr>random := r\<rparr>) a world0 = resolve e a world0"
    by (simp add: resolve_def read_config_file_def split: option.splits)
  moreover have "simulate (e\<lparr>random := r\<rparr>) d' w' = simulate e d' w'" for d' w'
    using simulate_random [where e = e and r = r and f = "files e" and d = d' and w = w'] by simp
  ultimately show "main (e\<lparr>random := r\<rparr>) a = main e a"
    by (simp add: main_def)
  show "simulate (e\<lparr>random := r, files := f\<rparr>) d w = simulate e d w"
    by (rule simulate_random)
qed

section \<open>The direction of the temperature\<close>

text \<open>
  The temperatures of the ticks never turn back: they do not decrease when the direction
  is up and do not increase when it is down. After the first addition the temperature is
  a float, and adding or subtracting the absolute value of the change and rounding
  cannot move it the other way.
\<close>

lemma to_fahrenheit_mono:
  assumes "x \<le> y"
  shows "to_fahrenheit x \<le> to_fahrenheit y"
proof -
  have "x / 1000 \<le> y / 1000"
    using assms by simp
  then have "rd (x / 1000) \<le> rd (y / 1000)"
    by (rule rd_mono)
  then have "rd (x / 1000) * 9 \<le> rd (y / 1000) * 9"
    by simp
  then have "rd (rd (x / 1000) * 9) \<le> rd (rd (y / 1000) * 9)"
    by (rule rd_mono)
  then have "rd (rd (x / 1000) * 9) / 5 \<le> rd (rd (y / 1000) * 9) / 5"
    by simp
  then have "rd (rd (rd (x / 1000) * 9) / 5) \<le> rd (rd (rd (y / 1000) * 9) / 5)"
    by (rule rd_mono)
  then have "rd (rd (rd (x / 1000) * 9) / 5) + 32 \<le> rd (rd (rd (y / 1000) * 9) / 5) + 32"
    by simp
  then show ?thesis
    unfolding to_fahrenheit_def by (rule rd_mono)
qed

lemma advance_grows:
  assumes "direction l = ''up''"
  shows "advance l t \<le> advance l (advance l t)"
proof -
  define u where "u = rd (rd t + \<bar>temp_change_per_interval l\<bar>)"
  have u: "rd u = u"
    by (simp add: u_def)
  have "rd u \<le> rd (u + \<bar>temp_change_per_interval l\<bar>)"
    by (rule rd_mono) simp
  then have "u \<le> rd (rd u + \<bar>temp_change_per_interval l\<bar>)"
    by (simp only: u)
  then show ?thesis
    using assms by (simp add: advance_def u_def [symmetric])
qed

lemma advance_falls:
  assumes "direction l \<noteq> ''up''"
  shows "advance l (advance l t) \<le> advance l t"
proof -
  define u where "u = rd (rd t - \<bar>temp_change_per_interval l\<bar>)"
  have u: "rd u = u"
    by (simp add: u_def)
  have "rd (u - \<bar>temp_change_per_interval l\<bar>) \<le> rd u"
    by (rule rd_mono) simp
  then have "rd (rd u - \<bar>temp_change_per_interval l\<bar>) \<le> u"
    by (simp only: u)
  then show ?thesis
    using assms by (simp add: advance_def u_def [symmetric])
qed

lemma trace_temperatures_monotone:
  "direction l = ''up'' \<Longrightarrow> sorted (map fst (trace l c k t g))"
  "direction l \<noteq> ''up'' \<Longrightarrow> sorted_wrt (\<ge>) (map fst (trace l c k t g))"
proof -
  define n where "n = length (trace l c k t g)"
  define f where "f = (\<lambda>i. to_fahrenheit ((advance l ^^ Suc i) t))"
  have m: "map fst (trace l c k t g) = map f [0..<n]"
    by (subst trace_iterates) (simp add: n_def f_def comp_def)
  {
    assume up: "direction l = ''up''"
    have "f i \<le> f (Suc i)" for i
      unfolding f_def using advance_grows [OF up, of "(advance l ^^ i) t"]
      by (intro to_fahrenheit_mono) simp
    then have "i \<le> j \<Longrightarrow> f i \<le> f j" for i j
      by (rule lift_Suc_mono_le)
    then show "sorted (map fst (trace l c k t g))"
      unfolding m by (simp add: sorted_map sorted_wrt_iff_nth_less)
  }
  {
    assume down: "direction l \<noteq> ''up''"
    have "f (Suc i) \<le> f i" for i
      unfolding f_def using advance_falls [OF down, of "(advance l ^^ i) t"]
      by (intro to_fahrenheit_mono) simp
    then have "i \<le> j \<Longrightarrow> f j \<le> f i" for i j
      by (rule lift_Suc_antimono_le)
    then show "sorted_wrt (\<ge>) (map fst (trace l c k t g))"
      unfolding m by (simp add: sorted_wrt_map sorted_wrt_iff_nth_less)
  }
qed

lemma run_temperatures_monotone:
  "direction (the_locals d) = ''up'' \<Longrightarrow> sorted (map fst (run_trace d))"
  "direction (the_locals d) \<noteq> ''up'' \<Longrightarrow> sorted_wrt (\<ge>) (map fst (run_trace d))"
  unfolding run_trace_def by (rule trace_temperatures_monotone; assumption)+

end
